theory Spec2Isabelle
  imports Main "HOL-Library.AList" "HOL-Library.Sublist"
begin

section \<open>Strings\<close>

text \<open>
  Header names, paths and tokens are ASCII strings. \<open>String.prototype.toLowerCase\<close>
  is modelled on the ASCII letters; \<open>startsWith\<close> is \<^const>\<open>prefix\<close>.
\<close>

definition toLowerCase_char :: "char \<Rightarrow> char" where
  "toLowerCase_char c =
     (let n = (of_char c :: nat) in if 65 \<le> n \<and> n \<le> 90 then char_of (n + 32) else c)"

definition toLowerCase :: "string \<Rightarrow> string" where
  "toLowerCase s = map toLowerCase_char s"

definition startsWith :: "string \<Rightarrow> string \<Rightarrow> bool" where
  "startsWith s pat = prefix pat s"

text \<open>
  \<open>s.replace(pat, rep)\<close> with a string pattern: the first occurrence of \<open>pat\<close> in
  \<open>s\<close>, scanning from the left, is replaced; without an occurrence \<open>s\<close> is returned.
  (The replacement strings of the program, \<open>"/"\<close> and \<open>""\<close>, contain no \<open>$\<close>
  pattern.)
\<close>

fun replace :: "string \<Rightarrow> string \<Rightarrow> string \<Rightarrow> string" where
  "replace [] pat rep = (if pat = [] then rep else [])"
| "replace (c # cs) pat rep =
     (if prefix pat (c # cs) then rep @ drop (length pat) (c # cs)
      else c # replace cs pat rep)"

text \<open>
  \<open>s.split("#")\<close>: the pieces of \<open>s\<close> between the separators; never empty.
\<close>

fun str_split :: "string \<Rightarrow> char \<Rightarrow> string list" where
  "str_split [] sep = [[]]"
| "str_split (c # cs) sep =
     (if c = sep then [] # str_split cs sep
      else (case str_split cs sep of p # ps \<Rightarrow> (c # p) # ps | [] \<Rightarrow> [[c]]))"

text \<open>Indexing an array out of range gives \<open>undefined\<close>, here \<open>None\<close>.\<close>

definition at_index :: "'a list \<Rightarrow> nat \<Rightarrow> 'a option" where
  "at_index xs i = (if i < length xs then Some (xs ! i) else None)"


section \<open>The Headers object\<close>

text \<open>
  A \<open>Headers\<close> object is a list of name/value pairs whose names are kept in lower
  case. \<open>Headers_set\<close>, \<open>Headers_delete\<close> and \<open>Headers_get\<close> are the operations on
  that list: set replaces the value of a name that is there and appends otherwise,
  delete removes a name, get reads one; all three compare names without regard to case.
  The method \<open>headers.set(name, value)\<close> normalises and validates the value before it
  sets it in the list; it is \<open>Headers_prototype_set\<close> below.
\<close>

type_synonym headers = "(string \<times> string) list"

definition Headers_set :: "headers \<Rightarrow> string \<Rightarrow> string \<Rightarrow> headers" where
  "Headers_set hs name v = AList.update (toLowerCase name) v hs"

definition Headers_delete :: "headers \<Rightarrow> string \<Rightarrow> headers" where
  "Headers_delete hs name = AList.delete (toLowerCase name) hs"

definition Headers_get :: "headers \<Rightarrow> string \<Rightarrow> string option" where
  "Headers_get hs name = map_of hs (toLowerCase name)"


section \<open>The header sanitizer\<close>

text \<open>
  Both proxy handlers copy the inbound headers with the same loop
  (\<open>c.req.raw.headers.forEach((value, key) => ...)\<close>). \<open>forwardable k\<close> is the
  loop's condition on the lower-cased name \<open>k\<close>; \<open>copy_headers\<close> is the loop,
  started on the \<open>Headers\<close> object built so far and run over the entries the
  iteration yields. Their values are values of a \<open>Headers\<close> object, normalised and
  valid, which \<open>headers.set\<close> stores as they are: the loop sets them in the list.
\<close>

definition forwardable :: "string \<Rightarrow> bool" where
  "forwardable k \<longleftrightarrow>
     \<not> startsWith k ''cf-'' \<and>
     \<not> startsWith k ''x-forwarded-'' \<and>
     \<not> startsWith k ''cdn-'' \<and>
     k \<noteq> ''x-real-ip'' \<and>
     k \<noteq> ''host''"

fun copy_headers :: "headers \<Rightarrow> (string \<times> string) list \<Rightarrow> headers" where
  "copy_headers hs [] = hs"
| "copy_headers hs ((key, v) # rest) =
     copy_headers
       (let k = toLowerCase key in if forwardable k then Headers_set hs key v else hs)
       rest"





section \<open>Platform values\<close>

text \<open>
  What a call gives instead of a value. Thrown by the platform: \<open>SyntaxError\<close> by
  \<open>JSON.parse\<close> and \<open>response.json()\<close> on text that is not JSON, \<open>TypeError\<close> by
  \<open>Headers.set\<close> on a value that is not a header value, a network failure by \<open>fetch\<close>,
  \<open>AbortError\<close> by a call whose signal is aborted. \<open>Pending\<close> stands for an awaited
  promise that never settles. \<open>Unmodelled\<close> marks a JSON document whose value the types
  of this theory do not cover (a string with a code unit above 255, a stored value that
  is not a record of tokens, nesting deeper than the text is long).
\<close>

datatype error = SyntaxError | TypeError | FetchError string | AbortError | Pending | Unmodelled

text \<open>
  An object literal handed to \<open>JSON.stringify\<close> as a request body, or to \<open>c.json\<close>
  as a reply: its keys in order, a value \<open>None\<close> being \<open>undefined\<close> (such a key is
  left out of the serialised text).
\<close>

type_synonym json_object = "(string \<times> string option) list"

text \<open>
  The provider's token response as the program reads it: \<open>response.ok\<close>, and the three
  fields of \<open>await response.json()\<close> (\<open>None\<close> when the body is not JSON and the
  call throws). Times are integers: epoch milliseconds and seconds.
\<close>

record token_json =
  refresh_token :: string
  access_token :: string
  expires_in :: int

record fetch_response =
  ok :: bool
  json :: "token_json option"

record response =
  status :: nat
  res_headers :: headers
  res_body :: string

text \<open>What a handler returns: \<open>c.json(object, status)\<close> or a \<open>Response\<close>.\<close>

datatype reply = Json_reply json_object nat | Response_reply response

record url =
  hostname :: string
  pathname :: string
  search :: string

text \<open>
  The inbound request: \<open>c.req.method\<close>, the parsed \<open>new URL(c.req.url)\<close>, the entries
  that \<open>c.req.raw.headers.forEach\<close> yields, and \<open>c.req.raw.body\<close>.
\<close>

record request =
  req_method :: string
  req_url :: url
  raw_headers :: "(string \<times> string) list"
  raw_body :: string

record request_init =
  init_method :: string
  init_headers :: headers
  init_body :: string

text \<open>
  The outbound calls a handler makes, in order: a POST to the provider's token endpoint
  with a body, and a call of \<open>proxy\<close> with a target URL and options.
\<close>

datatype event = Token_call json_object | Proxy_call string request_init

fun is_Token_call :: "event \<Rightarrow> bool" where
  "is_Token_call (Token_call b) = True"
| "is_Token_call (Proxy_call u i) = False"

text \<open>
  What the upstream does with a proxied call that nobody aborts: it answers or fails
  after so many milliseconds, or never settles.
\<close>

datatype upstream = Responds nat response | Fails nat error | Hangs

text \<open>
  The world a handler runs in: the answer of the provider's token endpoint to a POST
  with the given body, the readings of \<open>Date.now()\<close> at the expiry check and when a
  token response is turned into a record, the text of \<open>new Date().toISOString()\<close>,
  the behaviour of the upstream for an outbound call, and which of the timer and the
  upstream is served first when both are due in the same millisecond.
\<close>

record world =
  token_endpoint :: "json_object \<Rightarrow> error + fetch_response"
  now_check :: int
  now_issue :: int
  stamp :: string
  upstream_of :: "string \<Rightarrow> request_init \<Rightarrow> upstream"
  timer_first :: bool


section \<open>The credential store (claude-code-auth.ts)\<close>

definition CLIENT_ID :: string where
  "CLIENT_ID = ''9d1c250a-e61b-44d9-88ed-5944d1962f5e''"

definition TOKEN_FILE_PATH :: string where
  "TOKEN_FILE_PATH = ''claude-code-tokens.json''"

text \<open>
  \<open>token_data\<close> is the object \<open>tokenData\<close> (\<open>newTokenData\<close>) built from a token
  response; \<open>stored_tokens\<close> is the object that \<open>storeTokens\<close> writes and
  \<open>getStoredTokens\<close> reads back. \<open>expires\<close> is in epoch milliseconds.
\<close>

record token_data =
  refresh :: string
  access :: string
  expires :: int

record stored_tokens = token_data +
  updated_at :: string

text \<open>
  The JSON codec is the platform's: \<open>JSON.stringify(tokenData, null, 2)\<close> and
  \<open>JSON.parse\<close>, which throws on text that is not JSON and may return a value that is
  not an object (\<open>None\<close>: \<open>null\<close> and the other falsy values). The store and the
  handlers take it as a parameter; \<open>js_platform\<close> below is the codec of the language.
\<close>

record platform =
  JSON_stringify :: "stored_tokens \<Rightarrow> string"
  JSON_parse :: "string \<Rightarrow> error + stored_tokens option"

text \<open>The files of the working directory: path to contents.\<close>

type_synonym files = "string \<rightharpoonup> string"

definition storeTokens :: "platform \<Rightarrow> string \<Rightarrow> string \<Rightarrow> string \<Rightarrow> int \<Rightarrow> files \<Rightarrow> files" where
  "storeTokens P now_iso refresh_tok access_tok expires_ms fs =
     (let tokenData = \<lparr>refresh = refresh_tok, access = access_tok, expires = expires_ms,
                        updated_at = now_iso\<rparr>
      in fs(TOKEN_FILE_PATH \<mapsto> JSON_stringify P tokenData))"

definition getStoredTokens :: "platform \<Rightarrow> files \<Rightarrow> error + stored_tokens option" where
  "getStoredTokens P fs =
     (case fs TOKEN_FILE_PATH of
        None \<Rightarrow> Inr None
      | Some data \<Rightarrow> JSON_parse P data)"


section \<open>The platform's JSON codec\<close>

text \<open>
  \<open>JSON.stringify(tokenData, null, 2)\<close> as ECMAScript defines it for an object of three
  strings and a number. A string is the list of its code units, each below 256; the
  file holds the text (the UTF-8 encoding that \<open>writeFileSync\<close> applies is undone by
  \<open>readFileSync(path, 'utf-8')\<close>). \<open>QuoteJSONString\<close> escapes the quote, the backslash
  and the control characters; \<open>Number_toString\<close> prints an integer in decimal, as
  JavaScript does for the safe integers; the members are indented by two spaces and
  separated by a comma and a line feed.
\<close>

definition hex_digit :: "nat \<Rightarrow> char" where
  "hex_digit d = ''0123456789abcdef'' ! (d mod 16)"

definition QuoteJSONString_char :: "char \<Rightarrow> string" where
  "QuoteJSONString_char c =
     (if c = CHR 0x08 then [CHR 0x5C, CHR ''b'']
      else if c = CHR 0x09 then [CHR 0x5C, CHR ''t'']
      else if c = CHR 0x0A then [CHR 0x5C, CHR ''n'']
      else if c = CHR 0x0C then [CHR 0x5C, CHR ''f'']
      else if c = CHR 0x0D then [CHR 0x5C, CHR ''r'']
      else if c = CHR 0x22 then [CHR 0x5C, CHR 0x22]
      else if c = CHR 0x5C then [CHR 0x5C, CHR 0x5C]
      else if (of_char c :: nat) < 32 then
        [CHR 0x5C, CHR ''u'', CHR ''0'', CHR ''0'',
         hex_digit (of_char c div 16), hex_digit (of_char c mod 16)]
      else [c])"

definition QuoteJSONString :: "string \<Rightarrow> string" where
  "QuoteJSONString s = CHR 0x22 # concat (map QuoteJSONString_char s) @ [CHR 0x22]"

fun digits :: "nat \<Rightarrow> string" where
  "digits n = (if n < 10 then [char_of (48 + n)] else digits (n div 10) @ [char_of (48 + n mod 10)])"

definition Number_toString :: "int \<Rightarrow> string" where
  "Number_toString x = (if x < 0 then CHR ''-'' # digits (nat (- x)) else digits (nat x))"

fun join :: "string \<Rightarrow> string list \<Rightarrow> string" where
  "join sep [] = []"
| "join sep [x] = x"
| "join sep (x # y # ys) = x @ sep @ join sep (y # ys)"

definition SerializeJSONObject :: "(string \<times> string) list \<Rightarrow> string" where
  "SerializeJSONObject members =
     (if members = [] then ''{}''
      else ''{'' @ [CHR 0x0A] @
           join ('','' @ [CHR 0x0A])
             (map (\<lambda>(k, v). ''  '' @ QuoteJSONString k @ '': '' @ v) members) @
           [CHR 0x0A] @ ''}'')"

definition stringify_tokens :: "stored_tokens \<Rightarrow> string" where
  "stringify_tokens tokenData =
     SerializeJSONObject
       [(''refresh'', QuoteJSONString (refresh tokenData)),
        (''access'', QuoteJSONString (access tokenData)),
        (''expires'', Number_toString (expires tokenData)),
        (''updated_at'', QuoteJSONString (updated_at tokenData))]"

text \<open>
  \<open>JSON.parse\<close>: the JSON grammar (ECMA-404). A number is kept as the decimal it is
  written as, mantissa and exponent of ten, and a string as its code units; a later
  member of an object hides an earlier one of the same name.
\<close>

datatype json =
  JNull | JBool bool | JNumber int int | JString string
| JArray "json list" | JObject "(string \<times> json) list"

definition is_ws :: "char \<Rightarrow> bool" where
  "is_ws c \<longleftrightarrow> c = CHR 0x20 \<or> c = CHR 0x09 \<or> c = CHR 0x0A \<or> c = CHR 0x0D"

definition skip_ws :: "string \<Rightarrow> string" where
  "skip_ws s = dropWhile is_ws s"

definition is_digit :: "char \<Rightarrow> bool" where
  "is_digit c \<longleftrightarrow> 48 \<le> (of_char c :: nat) \<and> (of_char c :: nat) \<le> 57"

definition hex_value :: "char \<Rightarrow> nat option" where
  "hex_value c =
     (let n = (of_char c :: nat) in
      if 48 \<le> n \<and> n \<le> 57 then Some (n - 48)
      else if 97 \<le> n \<and> n \<le> 102 then Some (n - 87)
      else if 65 \<le> n \<and> n \<le> 70 then Some (n - 55)
      else None)"

definition hex4 :: "char \<Rightarrow> char \<Rightarrow> char \<Rightarrow> char \<Rightarrow> nat option" where
  "hex4 h1 h2 h3 h4 =
     (case (hex_value h1, hex_value h2, hex_value h3, hex_value h4) of
        (Some a, Some b, Some c, Some d) \<Rightarrow> Some (((a * 16 + b) * 16 + c) * 16 + d)
      | _ \<Rightarrow> None)"

definition unescape :: "char \<Rightarrow> char option" where
  "unescape e =
     (if e = CHR 0x22 then Some (CHR 0x22)
      else if e = CHR 0x5C then Some (CHR 0x5C)
      else if e = CHR ''/'' then Some (CHR ''/'')
      else if e = CHR ''b'' then Some (CHR 0x08)
      else if e = CHR ''f'' then Some (CHR 0x0C)
      else if e = CHR ''n'' then Some (CHR 0x0A)
      else if e = CHR ''r'' then Some (CHR 0x0D)
      else if e = CHR ''t'' then Some (CHR 0x09)
      else None)"

fun parse_chars :: "string \<Rightarrow> error + (string \<times> string)" where
  "parse_chars [] = Inl SyntaxError"
| "parse_chars (c # cs) =
     (if c = CHR 0x22 then Inr ([], cs)
      else if c = CHR 0x5C then
        (case cs of
           [] \<Rightarrow> Inl SyntaxError
         | e # cs' \<Rightarrow>
             if e = CHR ''u'' then
               (case cs' of
                  h1 # h2 # h3 # h4 # cs'' \<Rightarrow>
                    (case hex4 h1 h2 h3 h4 of
                       None \<Rightarrow> Inl SyntaxError
                     | Some n \<Rightarrow>
                         if n < 256 then
                           (case parse_chars cs'' of
                              Inl err \<Rightarrow> Inl err
                            | Inr (s, rest) \<Rightarrow> Inr (char_of n # s, rest))
                         else Inl Unmodelled)
                | _ \<Rightarrow> Inl SyntaxError)
             else
               (case unescape e of
                  None \<Rightarrow> Inl SyntaxError
                | Some ch \<Rightarrow>
                    (case parse_chars cs' of
                       Inl err \<Rightarrow> Inl err
                     | Inr (s, rest) \<Rightarrow> Inr (ch # s, rest))))
      else if (of_char c :: nat) < 32 then Inl SyntaxError
      else
        (case parse_chars cs of
           Inl err \<Rightarrow> Inl err
         | Inr (s, rest) \<Rightarrow> Inr (c # s, rest)))"

definition parse_string :: "string \<Rightarrow> error + (string \<times> string)" where
  "parse_string s = (case s of [] \<Rightarrow> Inl SyntaxError
                     | c # cs \<Rightarrow> if c = CHR 0x22 then parse_chars cs else Inl SyntaxError)"

definition digits_value :: "string \<Rightarrow> nat" where
  "digits_value ds = foldl (\<lambda>n c. 10 * n + (of_char c - 48)) 0 ds"

definition parse_number :: "string \<Rightarrow> error + ((int \<times> int) \<times> string)" where
  "parse_number s =
     (let negative = (s \<noteq> [] \<and> hd s = CHR ''-'');
          s1 = (if negative then tl s else s);
          ip = takeWhile is_digit s1;
          s2 = dropWhile is_digit s1;
          has_frac = (s2 \<noteq> [] \<and> hd s2 = CHR ''.'');
          fp = (if has_frac then takeWhile is_digit (tl s2) else []);
          s3 = (if has_frac then dropWhile is_digit (tl s2) else s2);
          has_exp = (s3 \<noteq> [] \<and> (hd s3 = CHR ''e'' \<or> hd s3 = CHR ''E''));
          s4 = (if has_exp then tl s3 else s3);
          exp_negative = (has_exp \<and> s4 \<noteq> [] \<and> hd s4 = CHR ''-'');
          s5 = (if has_exp \<and> s4 \<noteq> [] \<and> (hd s4 = CHR ''-'' \<or> hd s4 = CHR ''+'') then tl s4 else s4);
          ep = (if has_exp then takeWhile is_digit s5 else []);
          s6 = (if has_exp then dropWhile is_digit s5 else s5)
      in if ip = [] \<or> (length ip > 1 \<and> hd ip = CHR ''0'') \<or> (has_frac \<and> fp = []) \<or>
            (has_exp \<and> ep = [])
         then Inl SyntaxError
         else
           (let mantissa = int (digits_value (ip @ fp));
                exponent = (if exp_negative then - int (digits_value ep) else int (digits_value ep))
                           - int (length fp)
            in Inr ((if negative then - mantissa else mantissa, exponent), s6)))"

text \<open>
  The recursion over values, elements and members goes down one step of the first
  argument at each call; \<open>JSON_parse_text\<close> starts it above the length of the text, which
  no nesting exceeds.
\<close>

fun parse_value :: "nat \<Rightarrow> string \<Rightarrow> error + (json \<times> string)"
  and parse_elements :: "nat \<Rightarrow> string \<Rightarrow> error + (json list \<times> string)"
  and parse_members :: "nat \<Rightarrow> string \<Rightarrow> error + ((string \<times> json) list \<times> string)"
where
  "parse_value 0 s = Inl Unmodelled"
| "parse_value (Suc n) s =
     (let s' = skip_ws s in
      if s' = [] then Inl SyntaxError
      else if hd s' = CHR ''-'' \<or> is_digit (hd s') then
        (case parse_number s' of
           Inl err \<Rightarrow> Inl err
         | Inr ((m, e), rest) \<Rightarrow> Inr (JNumber m e, rest))
      else if hd s' = CHR 0x22 then
        (case parse_string s' of
           Inl err \<Rightarrow> Inl err
         | Inr (str, rest) \<Rightarrow> Inr (JString str, rest))
      else if hd s' = CHR ''{'' then
        (if prefix ''}'' (skip_ws (tl s')) then Inr (JObject [], tl (skip_ws (tl s')))
         else
           (case parse_members n (tl s') of
              Inl err \<Rightarrow> Inl err
            | Inr (ms, rest) \<Rightarrow> Inr (JObject ms, rest)))
      else if hd s' = CHR ''['' then
        (if prefix '']'' (skip_ws (tl s')) then Inr (JArray [], tl (skip_ws (tl s')))
         else
           (case parse_elements n (tl s') of
              Inl err \<Rightarrow> Inl err
            | Inr (vs, rest) \<Rightarrow> Inr (JArray vs, rest)))
      else if prefix ''true'' s' then Inr (JBool True, drop 4 s')
      else if prefix ''false'' s' then Inr (JBool False, drop 5 s')
      else if prefix ''null'' s' then Inr (JNull, drop 4 s')
      else Inl SyntaxError)"
| "parse_elements 0 s = Inl Unmodelled"
| "parse_elements (Suc n) s =
     (case parse_value n s of
        Inl err \<Rightarrow> Inl err
      | Inr (v, rest) \<Rightarrow>
          (let rest' = skip_ws rest in
           if prefix '','' rest' then
             (case parse_elements n (tl rest') of
                Inl err \<Rightarrow> Inl err
              | Inr (vs, rest'') \<Rightarrow> Inr (v # vs, rest''))
           else if prefix '']'' rest' then Inr ([v], tl rest')
           else Inl SyntaxError))"
| "parse_members 0 s = Inl Unmodelled"
| "parse_members (Suc n) s =
     (case parse_string (skip_ws s) of
        Inl err \<Rightarrow> Inl err
      | Inr (k, rest) \<Rightarrow>
          (let rest' = skip_ws rest in
           if prefix '':'' rest' then
             (case parse_value n (tl rest') of
                Inl err \<Rightarrow> Inl err
              | Inr (v, rest'') \<Rightarrow>
                  (let rest''' = skip_ws rest'' in
                   if prefix '','' rest''' then
                     (case parse_members n (tl rest''') of
                        Inl err \<Rightarrow> Inl err
                      | Inr (ms, rest4) \<Rightarrow> Inr ((k, v) # ms, rest4))
                   else if prefix ''}'' rest''' then Inr ([(k, v)], tl rest''')
                   else Inl SyntaxError))
           else Inl SyntaxError))"

definition JSON_parse_text :: "string \<Rightarrow> error + json" where
  "JSON_parse_text s =
     (case parse_value (Suc (length s)) s of
        Inl err \<Rightarrow> Inl err
      | Inr (v, rest) \<Rightarrow> if skip_ws rest = [] then Inr v else Inl SyntaxError)"

definition number_value :: "int \<Rightarrow> int \<Rightarrow> int option" where
  "number_value m e =
     (if 0 \<le> e then Some (m * 10 ^ nat e)
      else if m mod 10 ^ nat (- e) = 0 then Some (m div 10 ^ nat (- e))
      else None)"

definition property :: "(string \<times> json) list \<Rightarrow> string \<Rightarrow> json option" where
  "property members k = map_of (rev members) k"

text \<open>
  The parsed value as \<open>getStoredTokens\<close> returns it to the handler: the falsy values
  (\<open>null\<close>, \<open>false\<close>, \<open>0\<close>, the empty string) are no record; an object with the three
  strings and an integer \<open>expires\<close> is a record.
\<close>

definition as_stored_tokens :: "json \<Rightarrow> error + stored_tokens option" where
  "as_stored_tokens v =
     (case v of
        JNull \<Rightarrow> Inr None
      | JBool b \<Rightarrow> if b then Inl Unmodelled else Inr None
      | JNumber m e \<Rightarrow> if m = 0 then Inr None else Inl Unmodelled
      | JString s \<Rightarrow> if s = [] then Inr None else Inl Unmodelled
      | JArray vs \<Rightarrow> Inl Unmodelled
      | JObject ms \<Rightarrow>
          (case (property ms ''refresh'', property ms ''access'', property ms ''expires'',
                 property ms ''updated_at'') of
             (Some (JString r), Some (JString a), Some (JNumber m e), Some (JString t)) \<Rightarrow>
               (case number_value m e of
                  Some x \<Rightarrow> Inr (Some \<lparr>refresh = r, access = a, expires = x, updated_at = t\<rparr>)
                | None \<Rightarrow> Inl Unmodelled)
           | _ \<Rightarrow> Inl Unmodelled))"

definition parse_tokens :: "string \<Rightarrow> error + stored_tokens option" where
  "parse_tokens s = (case JSON_parse_text s of Inl err \<Rightarrow> Inl err | Inr v \<Rightarrow> as_stored_tokens v)"


definition js_platform :: platform where
  "js_platform = \<lparr>JSON_stringify = stringify_tokens, JSON_parse = parse_tokens\<rparr>"


section \<open>The code exchange (claude-code-auth.ts)\<close>

text \<open>
  JavaScript numbers are modelled by the integers. The program's arithmetic on them is
  the integers' on the safe integers (\<open>Number.isSafeInteger\<close>), where no operand and
  no result is rounded.
\<close>

definition safe_integer :: "int \<Rightarrow> bool" where
  "safe_integer x \<longleftrightarrow> \<bar>x\<bar> \<le> 9007199254740991"

definition exchange_body :: "string \<Rightarrow> string \<Rightarrow> json_object" where
  "exchange_body code verifier =
     (let splits = str_split code CHR ''#'' in
      [(''code'', at_index splits 0),
       (''state'', at_index splits 1),
       (''grant_type'', Some ''authorization_code''),
       (''client_id'', Some CLIENT_ID),
       (''redirect_uri'', Some ''https://console.anthropic.com/oauth/code/callback''),
       (''code_verifier'', Some verifier)])"

definition exchange ::
  "platform \<Rightarrow> world \<Rightarrow> string \<Rightarrow> string \<Rightarrow> files \<Rightarrow> (error + json_object) \<times> files \<times> event list" where
  "exchange P W code verifier fs =
     (let body = exchange_body code verifier in
      case token_endpoint W body of
        Inl e \<Rightarrow> (Inl e, fs, [Token_call body])
      | Inr result \<Rightarrow>
          if \<not> ok result then (Inr [(''type'', Some ''failed'')], fs, [Token_call body])
          else
            (case json result of
               None \<Rightarrow> (Inl SyntaxError, fs, [Token_call body])
             | Some j \<Rightarrow>
                 (let tokenData = \<lparr>refresh = refresh_token j, access = access_token j,
                                    expires = now_issue W + expires_in j * 1000\<rparr>;
                      fs' = storeTokens P (stamp W) (refresh tokenData) (access tokenData)
                              (expires tokenData) fs
                  in (Inr [(''type'', Some ''success''),
                           (''message'', Some ''Tokens stored successfully'')],
                      fs', [Token_call body]))))"


section \<open>The bounded forwarding call\<close>

text \<open>
  The platform's objects that \<open>fetchWithTimeout\<close> uses. The abort signals allocated so
  far are a list of flags; \<open>new AbortController()\<close> appends one that is not aborted and
  returns its index, \<open>controller.abort()\<close> sets it, \<open>signal.aborted\<close> reads it.
\<close>

type_synonym signals = "bool list"

definition new_AbortController :: "signals \<Rightarrow> nat \<times> signals" where
  "new_AbortController h = (length h, h @ [False])"

definition abort :: "nat \<Rightarrow> signals \<Rightarrow> signals" where
  "abort controller h = h[controller := True]"

definition aborted :: "signals \<Rightarrow> nat \<Rightarrow> bool" where
  "aborted h controller \<longleftrightarrow> controller < length h \<and> h ! controller"

text \<open>
  \<open>await proxy(url, options)\<close> with a timer pending, as the platform runs it. The
  arguments are the signals, the pending timer (its delay in milliseconds and its
  callback) as \<open>setTimeout\<close> registered it, the signal that the options carry, which of
  timer and upstream is served first when both are due in the same millisecond, and what
  the upstream does. A call whose signal is aborted is cancelled and rejects with
  \<open>AbortError\<close>. The upstream settles first when it is due before the timer; otherwise
  the timer's callback runs, and the call goes on unless that aborted its signal. The
  result is \<open>None\<close> when the call never settles, else the signals, whether the call was
  cancelled, and how it settled.
\<close>

definition settles_first :: "nat \<Rightarrow> bool \<Rightarrow> nat \<Rightarrow> bool" where
  "settles_first delay timer_wins t \<longleftrightarrow> t < delay \<or> (t = delay \<and> \<not> timer_wins)"

definition signal_aborted :: "signals \<Rightarrow> nat option \<Rightarrow> bool" where
  "signal_aborted h signal = (case signal of None \<Rightarrow> False | Some controller \<Rightarrow> aborted h controller)"

definition settle :: "upstream \<Rightarrow> (nat \<times> (error + response)) option" where
  "settle u =
     (case u of
        Responds t res \<Rightarrow> Some (t, Inr res)
      | Fails t err \<Rightarrow> Some (t, Inl err)
      | Hangs \<Rightarrow> None)"

definition after_timer ::
  "signals \<Rightarrow> nat option \<Rightarrow> (error + response) option \<Rightarrow>
   (signals \<times> bool \<times> (error + response)) option" where
  "after_timer h signal late =
     (if signal_aborted h signal then Some (h, True, Inl AbortError)
      else (case late of None \<Rightarrow> None | Some r \<Rightarrow> Some (h, False, r)))"

definition await_proxy ::
  "signals \<Rightarrow> (nat \<times> (signals \<Rightarrow> signals)) option \<Rightarrow> nat option \<Rightarrow> bool \<Rightarrow> upstream \<Rightarrow>
   (signals \<times> bool \<times> (error + response)) option" where
  "await_proxy h timer signal timer_wins u =
     (if signal_aborted h signal then Some (h, True, Inl AbortError)
      else
        (case timer of
           None \<Rightarrow> (case settle u of None \<Rightarrow> None | Some (t, r) \<Rightarrow> Some (h, False, r))
         | Some (delay, callback) \<Rightarrow>
             (case settle u of
                None \<Rightarrow> after_timer (callback h) signal None
              | Some (t, r) \<Rightarrow>
                  if settles_first delay timer_wins t then Some (h, False, r)
                  else after_timer (callback h) signal (Some r))))"

text \<open>
  The timeout elapses before the upstream responds: the upstream would settle later
  than \<open>timeout\<close> milliseconds after the call, or never.
\<close>

definition timeout_elapses :: "nat \<Rightarrow> upstream \<Rightarrow> bool" where
  "timeout_elapses timeout u \<longleftrightarrow>
     (case u of Responds t res \<Rightarrow> timeout < t | Fails t err \<Rightarrow> timeout < t | Hangs \<Rightarrow> True)"

text \<open>
  \<open>fetchWithTimeout\<close> (lines 114 to 143): a new controller; a timer of \<open>timeout\<close>
  milliseconds whose callback is \<open>controller.abort()\<close>; the call of \<open>proxy\<close> with the
  controller's signal among the options; in the \<open>catch\<close> branch the response
  \<open>new Response("Request timeout", { status: 504 })\<close> when the signal is aborted, and
  the error thrown again otherwise. (\<open>clearTimeout\<close> only drops the timer.) The result
  is what the function returns or throws, and whether the platform cancelled the call;
  \<open>None\<close> when the awaited call never settles.
\<close>

definition fetchWithTimeout ::
  "world \<Rightarrow> string \<Rightarrow> request_init \<Rightarrow> nat \<Rightarrow> ((error + response) \<times> bool) option" where
  "fetchWithTimeout W target_url options timeout =
     (let (controller, h) = new_AbortController [];
          timeoutId = (timeout, abort controller)
      in case await_proxy h (Some timeoutId) (Some controller) (timer_first W)
                (upstream_of W target_url options) of
           None \<Rightarrow> None
         | Some (h', cancelled, Inr res) \<Rightarrow> Some (Inr res, cancelled)
         | Some (h', cancelled, Inl err) \<Rightarrow>
             if aborted h' controller
             then Some (Inr \<lparr>status = 504,
                              res_headers = [(''content-type'', ''text/plain;charset=UTF-8'')],
                              res_body = ''Request timeout''\<rparr>,
                        cancelled)
             else Some (Inl err, cancelled))"

text \<open>
  Both handlers end alike: the call with a timeout of 60000, then the relay of status,
  headers and body. A call that never settled would leave the handler pending;
  \<open>fetchWithTimeout\<close> always settles (lemma \<open>fetchWithTimeout_settles\<close>).
\<close>

definition relay ::
  "world \<Rightarrow> string \<Rightarrow> request_init \<Rightarrow> event list \<Rightarrow> (error + reply) \<times> event list" where
  "relay W target_url options trace =
     (case fetchWithTimeout W target_url options 60000 of
        None \<Rightarrow> (Inl Pending, trace @ [Proxy_call target_url options])
      | Some (Inl e, cancelled) \<Rightarrow> (Inl e, trace @ [Proxy_call target_url options])
      | Some (Inr res, cancelled) \<Rightarrow>
          (Inr (Response_reply \<lparr>status = status res, res_headers = res_headers res,
                                res_body = res_body res\<rparr>),
           trace @ [Proxy_call target_url options]))"


section \<open>The managed upstream: \<open>/claude-code/proxy/*\<close>\<close>

definition ANTHROPIC_BETA :: string where
  "ANTHROPIC_BETA =
     ''oauth-2025-04-20,claude-code-20250219,interleaved-thinking-2025-05-14,fine-grained-tool-streaming-2025-05-14''"

definition refresh_body :: "stored_tokens \<Rightarrow> json_object" where
  "refresh_body auth =
     [(''grant_type'', Some ''refresh_token''),
      (''refresh_token'', Some (refresh auth)),
      (''client_id'', Some CLIENT_ID)]"

text \<open>
  The method \<open>headers.set(name, value)\<close> of the platform: it removes the leading and
  trailing HTTP whitespace (tab, line feed, carriage return, space) of the value, throws
  a \<open>TypeError\<close> when what is left holds a NUL, a line feed or a carriage return, and
  else sets the header in the list. The copying loop and the \<open>host\<close> header pass
  values that a \<open>Headers\<close> object or a URL gave, on which the method is
  \<open>Headers_set\<close> (lemma \<open>Headers_prototype_set_value\<close>); the authorization header is
  built from the token.
\<close>

definition is_http_whitespace :: "char \<Rightarrow> bool" where
  "is_http_whitespace c \<longleftrightarrow> c = CHR 0x09 \<or> c = CHR 0x0A \<or> c = CHR 0x0D \<or> c = CHR 0x20"

definition normalize_value :: "string \<Rightarrow> string" where
  "normalize_value v =
     rev (dropWhile is_http_whitespace (rev (dropWhile is_http_whitespace v)))"

definition is_header_value :: "string \<Rightarrow> bool" where
  "is_header_value v \<longleftrightarrow> CHR 0x00 \<notin> set v \<and> CHR 0x0A \<notin> set v \<and> CHR 0x0D \<notin> set v"

definition Headers_prototype_set :: "headers \<Rightarrow> string \<Rightarrow> string \<Rightarrow> error + headers" where
  "Headers_prototype_set hs name v =
     (let v' = normalize_value v in
      if is_header_value v' then Inr (Headers_set hs name v') else Inl TypeError)"

text \<open>Lines 79 to 111: the target, the outbound headers, the call.\<close>

definition managed_headers :: "request \<Rightarrow> stored_tokens \<Rightarrow> error + headers" where
  "managed_headers req auth =
     (let headers = copy_headers [] (raw_headers req) in
      case Headers_prototype_set headers ''authorization'' (''Bearer '' @ access auth) of
        Inl e \<Rightarrow> Inl e
      | Inr headers \<Rightarrow>
          (case Headers_prototype_set headers ''anthropic-beta'' ANTHROPIC_BETA of
             Inl e \<Rightarrow> Inl e
           | Inr headers \<Rightarrow> Inr (Headers_delete headers ''x-api-key'')))"

definition forward_managed ::
  "world \<Rightarrow> request \<Rightarrow> stored_tokens \<Rightarrow> event list \<Rightarrow> (error + reply) \<times> event list" where
  "forward_managed W req auth trace =
     (let u = req_url req;
          targetPath = replace (pathname u) ''/claude-code/proxy'' [];
          targetUrl = ''https://api.anthropic.com'' @ targetPath @ search u
      in case managed_headers req auth of
           Inl e \<Rightarrow> (Inl e, trace)
         | Inr headers \<Rightarrow>
             relay W targetUrl
               \<lparr>init_method = req_method req, init_headers = headers,
                init_body = raw_body req\<rparr> trace)"

text \<open>
  The handler. \<open>!auth.access\<close> holds of the empty string; \<open>Date.now()\<close> is read
  only when the access token is there.
\<close>

definition claude_code_proxy ::
  "platform \<Rightarrow> world \<Rightarrow> request \<Rightarrow> files \<Rightarrow> (error + reply) \<times> files \<times> event list" where
  "claude_code_proxy P W req fs =
     (case getStoredTokens P fs of
        Inl e \<Rightarrow> (Inl e, fs, [])
      | Inr None \<Rightarrow>
          (Inr (Json_reply
                  [(''error'', Some ''No authentication found. Please authorize first.'')] 401),
           fs, [])
      | Inr (Some auth) \<Rightarrow>
          if access auth = [] \<or> expires auth < now_check W then
            (let body = refresh_body auth in
             case token_endpoint W body of
               Inl e \<Rightarrow> (Inl e, fs, [Token_call body])
             | Inr resp \<Rightarrow>
                 if \<not> ok resp then
                   (Inr (Json_reply
                           [(''error'', Some ''Failed to refresh token. Please re-authorize.'')]
                           401),
                    fs, [Token_call body])
                 else
                   (case json resp of
                      None \<Rightarrow> (Inl SyntaxError, fs, [Token_call body])
                    | Some j \<Rightarrow>
                        (let newTokenData =
                               \<lparr>refresh = refresh_token j, access = access_token j,
                                expires = now_issue W + expires_in j * 1000\<rparr>;
                             fs' = storeTokens P (stamp W) (refresh newTokenData)
                                     (access newTokenData) (expires newTokenData) fs;
                             auth' = auth\<lparr>access := access newTokenData\<rparr>;
                             (r, trace) = forward_managed W req auth' [Token_call body]
                         in (r, fs', trace))))
          else
            (let (r, trace) = forward_managed W req auth [] in (r, fs, trace)))"


section \<open>The routing table\<close>

record proxy_entry =
  pathSegment :: string
  target :: string
  orHostname :: "string option"

definition proxies :: "proxy_entry list" where
  "proxies =
     [\<lparr>pathSegment = ''generativelanguage'',
       target = ''https://generativelanguage.googleapis.com'',
       orHostname = Some ''gooai.chatkit.app''\<rparr>,
      \<lparr>pathSegment = ''groq'', target = ''https://api.groq.com'', orHostname = None\<rparr>,
      \<lparr>pathSegment = ''anthropic'', target = ''https://api.anthropic.com'', orHostname = None\<rparr>,
      \<lparr>pathSegment = ''pplx'', target = ''https://api.perplexity.ai'', orHostname = None\<rparr>,
      \<lparr>pathSegment = ''openai'', target = ''https://api.openai.com'', orHostname = None\<rparr>,
      \<lparr>pathSegment = ''mistral'', target = ''https://api.mistral.ai'', orHostname = None\<rparr>,
      \<lparr>pathSegment = ''openrouter/api'', target = ''https://openrouter.ai/api'',
       orHostname = None\<rparr>,
      \<lparr>pathSegment = ''openrouter'', target = ''https://openrouter.ai/api'', orHostname = None\<rparr>,
      \<lparr>pathSegment = ''xai'', target = ''https://api.x.ai'', orHostname = None\<rparr>,
      \<lparr>pathSegment = ''cerebras'', target = ''https://api.cerebras.ai'', orHostname = None\<rparr>,
      \<lparr>pathSegment = ''googleapis-cloudcode-pa'',
       target = ''https://cloudcode-pa.googleapis.com'', orHostname = None\<rparr>]"

text \<open>
  \<open>proxies.find(...)\<close>: the first entry whose segment is a prefix of the path or whose
  \<open>orHostname\<close> is set (and not empty) and equal to the request's host name.
\<close>

definition matches :: "url \<Rightarrow> proxy_entry \<Rightarrow> bool" where
  "matches u p \<longleftrightarrow>
     startsWith (pathname u) (''/'' @ pathSegment p @ ''/'') \<or>
     (case orHostname p of None \<Rightarrow> False | Some h \<Rightarrow> h \<noteq> [] \<and> hostname u = h)"

definition find_proxy :: "proxy_entry list \<Rightarrow> url \<Rightarrow> proxy_entry option" where
  "find_proxy table u = List.find (matches u) table"

text \<open>
  \<open>new URL(proxy.target).hostname\<close> for the targets of the table, which are all of the
  form \<open>https://host\<close> or \<open>https://host/path\<close>.
\<close>

definition URL_hostname :: "string \<Rightarrow> string" where
  "URL_hostname t = takeWhile (\<lambda>c. c \<noteq> CHR ''/'') (drop (length ''https://'') t)"

definition target_url :: "proxy_entry \<Rightarrow> url \<Rightarrow> string" where
  "target_url p u =
     target p @ replace (pathname u) (''/'' @ pathSegment p @ ''/'') ''/'' @ search u"

definition routed_headers :: "proxy_entry \<Rightarrow> request \<Rightarrow> headers" where
  "routed_headers p req =
     copy_headers (Headers_set [] ''host'' (URL_hostname (target p))) (raw_headers req)"

text \<open>
  The last middleware, over a routing table (the application's is \<open>proxies\<close>);
  \<open>None\<close> is \<open>next()\<close>.
\<close>

definition routing_middleware ::
  "proxy_entry list \<Rightarrow> world \<Rightarrow> request \<Rightarrow> ((error + reply) \<times> event list) option" where
  "routing_middleware table W req =
     (case find_proxy table (req_url req) of
        None \<Rightarrow> None
      | Some p \<Rightarrow>
          Some (relay W (target_url p (req_url req))
                  \<lparr>init_method = req_method req, init_headers = routed_headers p req,
                   init_body = raw_body req\<rparr> []))"


section \<open>Example inputs\<close>

text \<open>
  A stored record, the platform's codec, a store that holds the record's text, and a
  world whose provider grants a fresh token and whose upstream answers after
  250 ms; then worlds whose provider refuses, whose upstream never answers, and whose
  upstream fails, and requests for the managed upstream and for the routing table.
\<close>

definition example_tokens :: stored_tokens where
  "example_tokens =
     \<lparr>refresh = ''rt-1'', access = ''at-1'', expires = 1000,
      updated_at = ''2025-06-01T00:00:00.000Z''\<rparr>"

definition example_platform :: platform where
  "example_platform = js_platform"

definition example_text :: string where
  "example_text = JSON_stringify example_platform example_tokens"

definition example_files :: files where
  "example_files = [TOKEN_FILE_PATH \<mapsto> example_text]"

definition spaced_tokens :: stored_tokens where
  "spaced_tokens = example_tokens\<lparr>access := ''at-1 ''\<rparr>"

definition spaced_files :: files where
  "spaced_files = [TOKEN_FILE_PATH \<mapsto> JSON_stringify example_platform spaced_tokens]"

definition example_world :: world where
  "example_world =
     \<lparr>token_endpoint =
        (\<lambda>body. Inr \<lparr>ok = True,
                       json = Some \<lparr>refresh_token = ''rt-2'', access_token = ''at-2'',
                                    expires_in = 3600\<rparr>\<rparr>),
      now_check = 2000,
      now_issue = 2001,
      stamp = ''2025-06-01T01:00:00.000Z'',
      upstream_of =
        (\<lambda>u i. Responds 250 \<lparr>status = 200, res_headers = [], res_body = ''ok''\<rparr>),
      timer_first = True\<rparr>"

definition refusing_world :: world where
  "refusing_world =
     example_world\<lparr>token_endpoint := (\<lambda>body. Inr \<lparr>ok = False, json = None\<rparr>)\<rparr>"

definition hanging_world :: world where
  "hanging_world = example_world\<lparr>upstream_of := (\<lambda>u i. Hangs)\<rparr>"

definition failing_world :: world where
  "failing_world =
     example_world\<lparr>upstream_of := (\<lambda>u i. Fails 40 (FetchError ''ECONNRESET''))\<rparr>"

definition example_request :: request where
  "example_request =
     \<lparr>req_method = ''POST'',
      req_url = \<lparr>hostname = ''proxy.example'', pathname = ''/claude-code/proxy/v1/messages'',
                 search = ''?beta=true''\<rparr>,
      raw_headers = [(''authorization'', ''Bearer client-key''),
                     (''content-type'', ''application/json''), (''x-api-key'', ''sk-1''),
                     (''cf-ray'', ''8a1''), (''host'', ''proxy.example'')],
      raw_body = ''{}''\<rparr>"

definition groq_request :: request where
  "groq_request =
     example_request\<lparr>req_url := \<lparr>hostname = ''proxy.example'', pathname = ''/groq/v1/chat'',
                                   search = ''?stream=true''\<rparr>\<rparr>"

definition groq_on_gooai_request :: request where
  "groq_on_gooai_request =
     example_request\<lparr>req_url := \<lparr>hostname = ''gooai.chatkit.app'',
                                   pathname = ''/groq/v1/chat'', search = []\<rparr>\<rparr>"

definition openrouter_request :: request where
  "openrouter_request =
     example_request\<lparr>req_url := \<lparr>hostname = ''proxy.example'',
                                   pathname = ''/openrouter/api/v1/chat'', search = []\<rparr>\<rparr>"

definition gooai_request :: request where
  "gooai_request =
     example_request\<lparr>req_url := \<lparr>hostname = ''gooai.chatkit.app'',
                                   pathname = ''/v1beta/generativelanguage/models'',
                                   search = ''?key=k''\<rparr>\<rparr>"


section \<open>Properties of the sanitizer\<close>


















section \<open>The codec reads back what it writes\<close>

lemma hex_digit_value: "d < 16 \<Longrightarrow> hex_value (hex_digit d) = Some d"
proof -
  have "\<forall>d \<in> set [0..<16]. hex_value (hex_digit d) = Some d"
    by code_simp
  then show "d < 16 \<Longrightarrow> hex_value (hex_digit d) = Some d"
    by simp
qed

lemma hex_value_zero: "hex_value CHR ''0'' = Some 0"
  by code_simp

lemma hex4_escape:
  assumes "n < 32"
  shows "hex4 CHR ''0'' CHR ''0'' (hex_digit (n div 16)) (hex_digit (n mod 16)) = Some n"
proof -
  have "n div 16 < 16" "n mod 16 < 16"
    using assms by auto
  then show ?thesis
    by (simp add: hex4_def hex_value_zero hex_digit_value)
qed

lemma parse_chars_escaped:
  "parse_chars (QuoteJSONString_char c @ rest) =
     (case parse_chars rest of Inl err \<Rightarrow> Inl err | Inr (s, r) \<Rightarrow> Inr (c # s, r))"
proof (cases "(of_char c :: nat) < 32 \<and> c \<notin> {CHR 0x08, CHR 0x09, CHR 0x0A, CHR 0x0C, CHR 0x0D}")
  case True
  then have "hex4 CHR ''0'' CHR ''0'' (hex_digit (of_char c div 16)) (hex_digit (of_char c mod 16)) =
               Some (of_char c)"
    by (simp add: hex4_escape)
  moreover have "c \<noteq> CHR 0x22" "c \<noteq> CHR 0x5C"
    using True by auto
  ultimately show ?thesis
    using True by (auto simp: QuoteJSONString_char_def split: sum.splits)
next
  case False
  then show ?thesis
    by (auto simp: QuoteJSONString_char_def unescape_def split: sum.splits)
qed

lemma parse_chars_quoted:
  "parse_chars (concat (map QuoteJSONString_char s) @ CHR 0x22 # rest) = Inr (s, rest)"
  by (induction s) (simp_all add: parse_chars_escaped)

lemma parse_string_quoted: "parse_string (QuoteJSONString s @ rest) = Inr (s, rest)"
  by (simp add: parse_string_def QuoteJSONString_def parse_chars_quoted)



declare digits.simps [simp del]

lemma is_digit_char_of: "d < 10 \<Longrightarrow> is_digit (char_of (48 + d :: nat))"
  by (simp add: is_digit_def)

lemma digits_are_digits: "c \<in> set (digits n) \<Longrightarrow> is_digit c"
proof (induction n arbitrary: c rule: digits.induct)
  case (1 n)
  show ?case
  proof (cases "n < 10")
    case True
    with "1.prems" show ?thesis
      by (simp add: digits.simps [of n] is_digit_char_of)
  next
    case False
    with "1.prems" "1.IH" show ?thesis
      by (auto simp: digits.simps [of n] is_digit_char_of)
  qed
qed

lemma digits_not_empty: "digits n \<noteq> []"
  by (simp add: digits.simps [of n])

lemma digits_value_digits: "digits_value (digits n) = n"
proof (induction n rule: digits.induct)
  case (1 n)
  show ?case
  proof (cases "n < 10")
    case True
    then show ?thesis
      by (simp add: digits.simps [of n] digits_value_def)
  next
    case False
    with "1.IH" have "digits_value (digits (n div 10)) = n div 10"
      by simp
    with False show ?thesis
      by (simp add: digits.simps [of n] digits_value_def)
  qed
qed

lemma digits_value_Nil: "digits_value [] = 0"
  by (simp add: digits_value_def)

lemma hd_digits: "0 < n \<Longrightarrow> hd (digits n) \<noteq> CHR ''0''"
proof (induction n rule: digits.induct)
  case (1 n)
  show ?case
  proof (cases "n < 10")
    case True
    with "1.prems" show ?thesis
      by (simp add: digits.simps [of n] char_of_eq_iff take_bit_eq_mod)
  next
    case False
    with "1.IH" have "hd (digits (n div 10)) \<noteq> CHR ''0''"
      by simp
    with False show ?thesis
      by (simp add: digits.simps [of n] digits_not_empty)
  qed
qed

lemma length_digits: "1 < length (digits n) \<Longrightarrow> 0 < n"
  by (cases "n < 10") (auto simp: digits.simps [of n])

lemma hd_digits_is_digit: "is_digit (hd (digits n))"
  using digits_are_digits [of "hd (digits n)" n] digits_not_empty [of n] by simp

lemma not_digit_comma: "\<not> is_digit CHR '',''"
  by (simp add: is_digit_def)

lemma not_digit_minus: "\<not> is_digit CHR ''-''"
  by (simp add: is_digit_def)

lemma takeWhile_digits: "takeWhile is_digit (digits n @ CHR '','' # rest) = digits n"
  by (simp add: takeWhile_append2 digits_are_digits not_digit_comma)

lemma dropWhile_digits: "dropWhile is_digit (digits n @ CHR '','' # rest) = CHR '','' # rest"
  by (simp add: dropWhile_append2 digits_are_digits not_digit_comma)

lemma parse_number_digits:
  "parse_number (digits n @ CHR '','' # rest) = Inr ((int n, 0), CHR '','' # rest)"
proof -
  have "hd (digits n @ CHR '','' # rest) \<noteq> CHR ''-''"
    using hd_digits_is_digit [of n] not_digit_minus by (auto simp: digits_not_empty)
  moreover have "\<not> (1 < length (digits n) \<and> hd (digits n) = CHR ''0'')"
    using hd_digits length_digits by blast
  ultimately show ?thesis
    by (simp add: parse_number_def Let_def takeWhile_digits dropWhile_digits digits_not_empty
        digits_value_digits digits_value_Nil)
qed

lemma parse_number_minus_digits:
  "parse_number (CHR ''-'' # digits n @ CHR '','' # rest) = Inr ((- int n, 0), CHR '','' # rest)"
proof -
  have "\<not> (1 < length (digits n) \<and> hd (digits n) = CHR ''0'')"
    using hd_digits length_digits by blast
  then show ?thesis
    by (simp add: parse_number_def Let_def takeWhile_digits dropWhile_digits digits_not_empty
        digits_value_digits digits_value_Nil)
qed

lemma parse_number_toString:
  "parse_number (Number_toString x @ CHR '','' # rest) = Inr ((x, 0), CHR '','' # rest)"
  by (simp add: Number_toString_def parse_number_digits parse_number_minus_digits)

lemma hd_Number_toString:
  "hd (Number_toString x @ rest) = CHR ''-'' \<or> is_digit (hd (Number_toString x @ rest))"
  using hd_digits_is_digit by (simp add: Number_toString_def digits_not_empty)

lemma Number_toString_not_empty: "Number_toString x @ rest \<noteq> []"
  by (simp add: Number_toString_def digits_not_empty)

lemma skip_ws_Number_toString: "skip_ws (Number_toString x @ rest) = Number_toString x @ rest"
proof -
  have "\<not> is_ws (hd (Number_toString x @ rest))"
    using hd_Number_toString [of x rest] by (auto simp: is_ws_def is_digit_def)
  then show ?thesis
    using Number_toString_not_empty [of x rest]
    by (cases "Number_toString x @ rest") (simp_all add: skip_ws_def)
qed


lemma skip_ws_Nil: "skip_ws [] = []"
  by (simp add: skip_ws_def)

lemma skip_ws_Cons: "skip_ws (c # cs) = (if is_ws c then skip_ws cs else c # cs)"
  by (simp add: skip_ws_def)

lemma quoted_not_empty: "QuoteJSONString s @ rest \<noteq> []"
  by (simp add: QuoteJSONString_def)

lemma hd_quoted: "hd (QuoteJSONString s @ rest) = CHR 0x22"
  by (simp add: QuoteJSONString_def)

lemma skip_ws_quoted: "skip_ws (QuoteJSONString s @ rest) = QuoteJSONString s @ rest"
  by (simp add: QuoteJSONString_def skip_ws_def is_ws_def)

lemma not_brace_quoted: "\<not> prefix ''}'' (QuoteJSONString s @ rest)"
  by (simp add: QuoteJSONString_def)

lemma not_digit_quote: "\<not> is_digit (CHR 0x22)"
  by (simp add: is_digit_def)

lemma not_digit_brace: "\<not> is_digit CHR ''{''"
  by (simp add: is_digit_def)

lemma parse_value_tokens:
  "parse_value (Suc (Suc (Suc (Suc (Suc (Suc k))))))
     (stringify_tokens \<lparr>refresh = r, access = a, expires = x, updated_at = t\<rparr>) =
   Inr (JObject [(''refresh'', JString r), (''access'', JString a), (''expires'', JNumber x 0),
                 (''updated_at'', JString t)], [])"
  by (simp add: stringify_tokens_def SerializeJSONObject_def Let_def skip_ws_Nil skip_ws_Cons
      is_ws_def not_digit_quote not_digit_brace quoted_not_empty hd_quoted skip_ws_quoted
      not_brace_quoted parse_string_quoted Number_toString_not_empty hd_Number_toString
      skip_ws_Number_toString parse_number_toString)

lemma length_stringify_tokens: "5 \<le> length (stringify_tokens tokenData)"
  by (simp add: stringify_tokens_def SerializeJSONObject_def)

lemma JSON_parse_text_tokens:
  "JSON_parse_text (stringify_tokens \<lparr>refresh = r, access = a, expires = x, updated_at = t\<rparr>) =
   Inr (JObject [(''refresh'', JString r), (''access'', JString a), (''expires'', JNumber x 0),
                 (''updated_at'', JString t)])"
proof -
  let ?doc = "stringify_tokens \<lparr>refresh = r, access = a, expires = x, updated_at = t\<rparr>"
  obtain k where "length ?doc = 5 + k"
    using length_stringify_tokens [of "\<lparr>refresh = r, access = a, expires = x, updated_at = t\<rparr>"]
      le_Suc_ex by blast
  then have "Suc (length ?doc) = Suc (Suc (Suc (Suc (Suc (Suc k)))))"
    by simp
  then show ?thesis
    by (simp add: JSON_parse_text_def parse_value_tokens skip_ws_Nil del: parse_value.simps)
qed

lemma JSON_round_trip:
  "parse_tokens (stringify_tokens \<lparr>refresh = r, access = a, expires = x, updated_at = t\<rparr>) =
   Inr (Some \<lparr>refresh = r, access = a, expires = x, updated_at = t\<rparr>)"
  by (simp add: parse_tokens_def JSON_parse_text_tokens as_stored_tokens_def property_def
      number_value_def)

lemma example_load: "getStoredTokens example_platform example_files = Inr (Some example_tokens)"
  by (simp add: getStoredTokens_def example_files_def example_text_def example_platform_def
      js_platform_def example_tokens_def JSON_round_trip)

lemma spaced_load: "getStoredTokens example_platform spaced_files = Inr (Some spaced_tokens)"
  by (simp add: getStoredTokens_def spaced_files_def spaced_tokens_def example_platform_def
      js_platform_def example_tokens_def JSON_round_trip)


section \<open>The managed upstream: refresh and refusal\<close>

lemma snd_relay: "snd (relay W u opts trace) = trace @ [Proxy_call u opts]"
  by (simp add: relay_def split: option.splits sum.splits prod.splits)

lemma snd_forward_managed:
  "snd (forward_managed W req auth trace) = trace \<or>
   (\<exists>u opts. snd (forward_managed W req auth trace) = trace @ [Proxy_call u opts])"
  by (simp add: forward_managed_def Let_def snd_relay split: sum.splits)

lemma snd_forward_managed_built:
  assumes "managed_headers req auth = Inr hs"
  shows "snd (forward_managed W req auth trace) =
           trace @
           [Proxy_call
              (''https://api.anthropic.com'' @
               replace (pathname (req_url req)) ''/claude-code/proxy'' [] @ search (req_url req))
              \<lparr>init_method = req_method req, init_headers = hs, init_body = raw_body req\<rparr>]"
  using assms by (simp add: forward_managed_def Let_def snd_relay)

lemma calls_stored:
  assumes "getStoredTokens P fs = Inr (Some auth)" "access auth \<noteq> []" "now_check W \<le> expires auth"
  shows "snd (snd (claude_code_proxy P W req fs)) = snd (forward_managed W req auth [])"
  using assms by (simp add: claude_code_proxy_def split: prod.splits)

lemma calls_refreshed:
  assumes "getStoredTokens P fs = Inr (Some auth)"
    and "access auth = [] \<or> expires auth < now_check W"
    and "token_endpoint W (refresh_body auth) = Inr resp" and "ok resp" and "json resp = Some j"
  shows "snd (snd (claude_code_proxy P W req fs)) =
           snd (forward_managed W req (auth\<lparr>access := access_token j\<rparr>)
                  [Token_call (refresh_body auth)])"
  using assms by (auto simp: claude_code_proxy_def Let_def split: prod.splits)

lemma calls_no_refresh:
  assumes "getStoredTokens P fs = Inr (Some auth)" "access auth \<noteq> []" "now_check W \<le> expires auth"
  shows "snd (snd (claude_code_proxy P W req fs)) = [] \<or>
         (\<exists>u opts. snd (snd (claude_code_proxy P W req fs)) = [Proxy_call u opts])"
  using calls_stored [OF assms, of req] snd_forward_managed [of W req auth "[]"] by simp

lemma calls_refresh:
  assumes "getStoredTokens P fs = Inr (Some auth)" "access auth = [] \<or> expires auth < now_check W"
  shows "\<exists>rest. snd (snd (claude_code_proxy P W req fs)) = Token_call (refresh_body auth) # rest
           \<and> filter is_Token_call rest = []"
proof (cases "token_endpoint W (refresh_body auth)")
  case (Inl e)
  then show ?thesis using assms by (auto simp: claude_code_proxy_def Let_def)
next
  case (Inr resp)
  show ?thesis
  proof (cases "ok resp \<and> json resp \<noteq> None")
    case False
    then show ?thesis using assms Inr
      by (auto simp: claude_code_proxy_def Let_def split: option.splits)
  next
    case True
    then obtain j where j: "json resp = Some j" "ok resp" by auto
    let ?auth' = "auth\<lparr>access := access_token j\<rparr>"
    let ?first = "Token_call (refresh_body auth)"
    have "snd (snd (claude_code_proxy P W req fs)) = snd (forward_managed W req ?auth' [?first])"
      by (rule calls_refreshed [OF assms Inr j(2) j(1)])
    then show ?thesis
      using snd_forward_managed [of W req ?auth' "[?first]"] by auto
  qed
qed

text \<open>
  C1, as the handler decides it. With a record in the store whose access token is
  present: when \<open>expires\<close> is before the clock reading of the check
  (\<open>auth.expires < Date.now()\<close>), the handler's calls start with one refresh call and
  hold no other, so exactly one refresh precedes any forwarding; when \<open>expires\<close> is
  that reading or later, the handler makes no refresh call.
\<close>

theorem refresh_when_expired:
  assumes "getStoredTokens P fs = Inr (Some auth)" and "access auth \<noteq> []"
  shows "(expires auth < now_check W \<longrightarrow>
            (\<exists>rest. snd (snd (claude_code_proxy P W req fs)) = Token_call (refresh_body auth) # rest \<and>
                    filter is_Token_call rest = [])) \<and>
         (now_check W \<le> expires auth \<longrightarrow>
            filter is_Token_call (snd (snd (claude_code_proxy P W req fs))) = [])"
proof (intro conjI impI)
  assume "expires auth < now_check W"
  then show "\<exists>rest. snd (snd (claude_code_proxy P W req fs)) = Token_call (refresh_body auth) # rest \<and>
                    filter is_Token_call rest = []"
    using calls_refresh [OF assms(1)] by blast
next
  assume "now_check W \<le> expires auth"
  then have "snd (snd (claude_code_proxy P W req fs)) = [] \<or>
             (\<exists>u opts. snd (snd (claude_code_proxy P W req fs)) = [Proxy_call u opts])"
    using calls_no_refresh [OF assms] by blast
  then show "filter is_Token_call (snd (snd (claude_code_proxy P W req fs))) = []"
    by auto
qed

theorem refresh_when_expired_witness:
  "(\<exists>rest. snd (snd (claude_code_proxy example_platform example_world example_request
                         example_files)) =
             Token_call (refresh_body example_tokens) # rest \<and>
           filter is_Token_call rest = []) \<and>
   filter is_Token_call
     (snd (snd (claude_code_proxy example_platform (example_world\<lparr>now_check := 500\<rparr>)
                  example_request example_files))) = []"
proof -
  have present: "access example_tokens \<noteq> []"
    by (simp add: example_tokens_def)
  have past: "expires example_tokens < now_check example_world"
    by (simp add: example_tokens_def example_world_def)
  have future: "now_check (example_world\<lparr>now_check := 500\<rparr>) \<le> expires example_tokens"
    by (simp add: example_tokens_def)
  show ?thesis
    using refresh_when_expired [OF example_load present, of example_world example_request]
      refresh_when_expired [OF example_load present, of "example_world\<lparr>now_check := 500\<rparr>"
        example_request]
      past future
    by blast
qed

text \<open>
  C1 as stated asks for a refresh when \<open>expires\<close> equals the clock reading. The
  comparison is strict: with \<open>expires = 1000\<close> and \<open>Date.now() = 1000\<close> the handler
  makes no refresh call and forwards with the stored token.
\<close>

theorem refresh_at_expiry_counterexample:
  "getStoredTokens example_platform example_files = Inr (Some example_tokens) \<and>
   access example_tokens \<noteq> [] \<and>
   expires example_tokens \<le> now_check (example_world\<lparr>now_check := 1000\<rparr>) \<and>
   filter is_Token_call
     (snd (snd (claude_code_proxy example_platform (example_world\<lparr>now_check := 1000\<rparr>)
                  example_request example_files))) = []"
proof -
  have present: "access example_tokens \<noteq> []"
    by (simp add: example_tokens_def)
  have now: "now_check (example_world\<lparr>now_check := 1000\<rparr>) \<le> expires example_tokens"
    by (simp add: example_tokens_def)
  have "snd (snd (claude_code_proxy example_platform (example_world\<lparr>now_check := 1000\<rparr>)
                    example_request example_files)) = [] \<or>
        (\<exists>u opts.
           snd (snd (claude_code_proxy example_platform (example_world\<lparr>now_check := 1000\<rparr>)
                       example_request example_files)) = [Proxy_call u opts])"
    using calls_no_refresh [OF example_load present now] by blast
  then show ?thesis
    using example_load present by (auto simp: example_tokens_def)
qed

lemma no_credential:
  assumes "fs TOKEN_FILE_PATH = None \<or> getStoredTokens P fs = Inr None"
  shows "claude_code_proxy P W req fs =
           (Inr (Json_reply
                   [(''error'', Some ''No authentication found. Please authorize first.'')] 401),
            fs, [])"
proof -
  from assms have "getStoredTokens P fs = Inr None"
    by (auto simp: getStoredTokens_def)
  then show ?thesis by (simp add: claude_code_proxy_def)
qed

lemma refresh_refused:
  assumes "getStoredTokens P fs = Inr (Some auth)"
    and "access auth = [] \<or> expires auth < now_check W"
    and "token_endpoint W (refresh_body auth) = Inr resp" and "\<not> ok resp"
  shows "claude_code_proxy P W req fs =
           (Inr (Json_reply
                   [(''error'', Some ''Failed to refresh token. Please re-authorize.'')] 401),
            fs, [Token_call (refresh_body auth)])"
  using assms by (auto simp: claude_code_proxy_def Let_def)

text \<open>
  C2. When the token file is absent (or holds no record), and when a refresh is due and
  the provider's answer is not a success, the handler replies with status 401 and a JSON
  object with an \<open>error\<close> message, and the files are the ones it started with.
\<close>

theorem unauthenticated_reply:
  "(fs TOKEN_FILE_PATH = None \<or> getStoredTokens P fs = Inr None \<longrightarrow>
      claude_code_proxy P W req fs =
        (Inr (Json_reply
                [(''error'', Some ''No authentication found. Please authorize first.'')] 401),
         fs, [])) \<and>
   (getStoredTokens P fs = Inr (Some auth) \<and>
    (access auth = [] \<or> expires auth < now_check W) \<and>
    token_endpoint W (refresh_body auth) = Inr resp \<and> \<not> ok resp \<longrightarrow>
      claude_code_proxy P W req fs =
        (Inr (Json_reply
                [(''error'', Some ''Failed to refresh token. Please re-authorize.'')] 401),
         fs, [Token_call (refresh_body auth)]))"
  using no_credential refresh_refused by blast

theorem unauthenticated_reply_witness:
  "claude_code_proxy example_platform example_world example_request Map.empty =
     (Inr (Json_reply
             [(''error'', Some ''No authentication found. Please authorize first.'')] 401),
      Map.empty, []) \<and>
   claude_code_proxy example_platform refusing_world example_request example_files =
     (Inr (Json_reply
             [(''error'', Some ''Failed to refresh token. Please re-authorize.'')] 401),
      example_files, [Token_call (refresh_body example_tokens)])"
proof -
  have absent: "(Map.empty :: files) TOKEN_FILE_PATH = None"
    by simp
  have due: "access example_tokens = [] \<or> expires example_tokens < now_check refusing_world"
    by (simp add: example_tokens_def refusing_world_def example_world_def)
  have answer: "token_endpoint refusing_world (refresh_body example_tokens) =
                  Inr \<lparr>ok = False, json = None\<rparr>"
    by (simp add: refusing_world_def)
  have refused: "\<not> ok \<lparr>ok = False, json = None\<rparr>"
    by simp
  show ?thesis
    using unauthenticated_reply [where fs = Map.empty and P = example_platform
        and W = example_world and req = example_request]
      unauthenticated_reply [where fs = example_files and P = example_platform
        and auth = example_tokens and W = refusing_world
        and resp = "\<lparr>ok = False, json = None\<rparr>" and req = example_request]
      absent example_load due answer refused
    by blast
qed



section \<open>The code exchange\<close>

lemma exchange_failed:
  assumes "token_endpoint W (exchange_body code verifier) = Inr result" and "\<not> ok result"
  shows "exchange P W code verifier fs =
           (Inr [(''type'', Some ''failed'')], fs, [Token_call (exchange_body code verifier)])"
  using assms by (simp add: exchange_def Let_def)

lemma exchange_success:
  assumes "token_endpoint W (exchange_body code verifier) = Inr result" and "ok result"
    and "json result = Some j"
  shows "exchange P W code verifier fs =
           (Inr [(''type'', Some ''success''), (''message'', Some ''Tokens stored successfully'')],
            fs(TOKEN_FILE_PATH \<mapsto>
                 JSON_stringify P
                   \<lparr>refresh = refresh_token j, access = access_token j,
                    expires = now_issue W + expires_in j * 1000, updated_at = stamp W\<rparr>),
            [Token_call (exchange_body code verifier)])"
  using assms by (simp add: exchange_def storeTokens_def Let_def)

lemma exchange_written:
  assumes "fst (snd (exchange P W code verifier fs)) \<noteq> fs"
  shows "\<exists>result j. token_endpoint W (exchange_body code verifier) = Inr result \<and> ok result \<and>
           json result = Some j"
  using assms by (auto simp: exchange_def Let_def split: sum.splits if_splits option.splits)

text \<open>
  C6. If the provider's answer to the exchange is not a success, \<open>exchange\<close> returns
  \<open>{type: "failed"}\<close> and the files are unchanged; the files change only after a
  success answer; and on a success answer the token file holds the record with
  \<open>expires = Date.now() + expires_in * 1000\<close>, for a clock reading and a lifetime
  whose product by 1000 and whose sum are safe integers, where JavaScript computes
  them exactly.
\<close>

theorem exchange_store:
  "(\<forall>result. token_endpoint W (exchange_body code verifier) = Inr result \<and> \<not> ok result \<longrightarrow>
      exchange P W code verifier fs =
        (Inr [(''type'', Some ''failed'')], fs, [Token_call (exchange_body code verifier)])) \<and>
   (fst (snd (exchange P W code verifier fs)) \<noteq> fs \<longrightarrow>
      (\<exists>result j. token_endpoint W (exchange_body code verifier) = Inr result \<and> ok result \<and>
         json result = Some j)) \<and>
   (\<forall>result j. token_endpoint W (exchange_body code verifier) = Inr result \<and> ok result \<and>
      json result = Some j \<and>
      safe_integer (now_issue W) \<and> safe_integer (expires_in j) \<and>
      safe_integer (expires_in j * 1000) \<and>
      safe_integer (now_issue W + expires_in j * 1000) \<longrightarrow>
      exchange P W code verifier fs =
        (Inr [(''type'', Some ''success''), (''message'', Some ''Tokens stored successfully'')],
         fs(TOKEN_FILE_PATH \<mapsto>
              JSON_stringify P
                \<lparr>refresh = refresh_token j, access = access_token j,
                 expires = now_issue W + expires_in j * 1000, updated_at = stamp W\<rparr>),
         [Token_call (exchange_body code verifier)]))"
  using exchange_failed exchange_success exchange_written by blast

theorem exchange_store_witness:
  "exchange example_platform refusing_world ''code-1#state-1'' ''verifier-1'' example_files =
     (Inr [(''type'', Some ''failed'')], example_files,
      [Token_call (exchange_body ''code-1#state-1'' ''verifier-1'')]) \<and>
   exchange example_platform example_world ''code-1#state-1'' ''verifier-1'' Map.empty =
     (Inr [(''type'', Some ''success''), (''message'', Some ''Tokens stored successfully'')],
      [TOKEN_FILE_PATH \<mapsto>
         JSON_stringify example_platform
           \<lparr>refresh = ''rt-2'', access = ''at-2'', expires = 2001 + 3600 * 1000,
            updated_at = ''2025-06-01T01:00:00.000Z''\<rparr>],
      [Token_call (exchange_body ''code-1#state-1'' ''verifier-1'')])"
proof -
  let ?body = "exchange_body ''code-1#state-1'' ''verifier-1''"
  let ?j = "\<lparr>refresh_token = ''rt-2'', access_token = ''at-2'', expires_in = 3600\<rparr>"
  have refused: "token_endpoint refusing_world ?body = Inr \<lparr>ok = False, json = None\<rparr> \<and>
                 \<not> ok \<lparr>ok = False, json = None\<rparr>"
    by (simp add: refusing_world_def)
  have granted: "token_endpoint example_world ?body = Inr \<lparr>ok = True, json = Some ?j\<rparr> \<and>
                 ok \<lparr>ok = True, json = Some ?j\<rparr> \<and> json \<lparr>ok = True, json = Some ?j\<rparr> = Some ?j \<and>
                 safe_integer (now_issue example_world) \<and> safe_integer (expires_in ?j) \<and>
                 safe_integer (expires_in ?j * 1000) \<and>
                 safe_integer (now_issue example_world + expires_in ?j * 1000)"
    by (simp add: example_world_def safe_integer_def)
  have "exchange example_platform refusing_world ''code-1#state-1'' ''verifier-1'' example_files =
          (Inr [(''type'', Some ''failed'')], example_files, [Token_call ?body])"
    using exchange_store [where W = refusing_world and code = "''code-1#state-1''"
        and verifier = "''verifier-1''" and P = example_platform and fs = example_files]
      refused
    by blast
  moreover have "exchange example_platform example_world ''code-1#state-1'' ''verifier-1'' Map.empty =
     (Inr [(''type'', Some ''success''), (''message'', Some ''Tokens stored successfully'')],
      [TOKEN_FILE_PATH \<mapsto>
         JSON_stringify example_platform
           \<lparr>refresh = refresh_token ?j, access = access_token ?j,
            expires = now_issue example_world + expires_in ?j * 1000,
            updated_at = stamp example_world\<rparr>],
      [Token_call ?body])"
    using exchange_store [where W = example_world and code = "''code-1#state-1''"
        and verifier = "''verifier-1''" and P = example_platform and fs = Map.empty]
      granted
    by blast
  ultimately show ?thesis
    by (simp add: example_world_def)
qed

lemma str_split_no_separator: "sep \<notin> set s \<Longrightarrow> str_split s sep = [s]"
  by (induction s) auto

lemma calls_exchange:
  "snd (snd (exchange P W code verifier fs)) = [Token_call (exchange_body code verifier)]"
  by (simp add: exchange_def Let_def split: sum.splits option.splits)

text \<open>
  C7. For a code without \<open>#\<close>, the body sent to the provider has the whole string
  as \<open>code\<close> and no \<open>state\<close>: \<open>splits[1]\<close> is \<open>undefined\<close>, and the key is left out
  of the serialised body.
\<close>

theorem exchange_code_without_hash:
  assumes "CHR ''#'' \<notin> set code"
  shows "map_of (exchange_body code verifier) ''code'' = Some (Some code) \<and>
         map_of (exchange_body code verifier) ''state'' = Some None \<and>
         snd (snd (exchange P W code verifier fs)) = [Token_call (exchange_body code verifier)]"
  using assms
  by (simp add: exchange_body_def str_split_no_separator at_index_def calls_exchange)

theorem exchange_code_without_hash_witness:
  "map_of (exchange_body ''code-1'' ''verifier-1'') ''code'' = Some (Some ''code-1'') \<and>
   map_of (exchange_body ''code-1'' ''verifier-1'') ''state'' = Some None \<and>
   snd (snd (exchange example_platform example_world ''code-1'' ''verifier-1'' Map.empty)) =
     [Token_call (exchange_body ''code-1'' ''verifier-1'')]"
proof -
  have "CHR ''#'' \<notin> set ''code-1''"
    by simp
  then show ?thesis
    by (rule exchange_code_without_hash)
qed


section \<open>The credential store\<close>

text \<open>
  C9. With the platform's JSON codec, after \<open>storeTokens\<close> has saved a refresh token,
  an access token and an expiry in epoch milliseconds (a safe integer),
  \<open>getStoredTokens\<close> returns a record with that refresh token, that access token and
  that expiry, whatever the files held before.
\<close>

theorem store_then_load:
  assumes "safe_integer e"
  shows "\<exists>loaded. getStoredTokens js_platform (storeTokens js_platform t r a e fs) =
                    Inr (Some loaded) \<and>
           refresh loaded = r \<and> access loaded = a \<and> expires loaded = e"
  by (simp add: getStoredTokens_def storeTokens_def js_platform_def JSON_round_trip)

theorem store_then_load_witness:
  "\<exists>loaded. getStoredTokens js_platform
              (storeTokens js_platform ''2025-06-01T00:00:00.000Z''
                 [CHR ''r'', CHR 0x22, CHR 0x5C, CHR 0x0A, CHR 0x01] ''at-1'' 1748736000000
                 example_files) = Inr (Some loaded) \<and>
     refresh loaded = [CHR ''r'', CHR 0x22, CHR 0x5C, CHR 0x0A, CHR 0x01] \<and>
     access loaded = ''at-1'' \<and> expires loaded = 1748736000000"
proof -
  have "safe_integer 1748736000000"
    by (simp add: safe_integer_def)
  then show ?thesis
    by (rule store_then_load)
qed


section \<open>The headers of the managed call\<close>

lemma lower_authorization: "toLowerCase ''authorization'' = ''authorization''"
  by code_simp

lemma lower_anthropic_beta: "toLowerCase ''anthropic-beta'' = ''anthropic-beta''"
  by code_simp

lemma lower_x_api_key: "toLowerCase ''x-api-key'' = ''x-api-key''"
  by code_simp

lemma Headers_prototype_set_value:
  "normalize_value v = v \<Longrightarrow> is_header_value v \<Longrightarrow>
     Headers_prototype_set hs name v = Inr (Headers_set hs name v)"
  by (simp add: Headers_prototype_set_def)

lemma beta_value: "normalize_value ANTHROPIC_BETA = ANTHROPIC_BETA \<and> is_header_value ANTHROPIC_BETA"
  by code_simp

lemma normalize_bearer:
  assumes "tok \<noteq> []" and "\<not> is_http_whitespace (last tok)"
  shows "normalize_value (''Bearer '' @ tok) = ''Bearer '' @ tok"
proof -
  have "dropWhile is_http_whitespace (''Bearer '' @ tok) = ''Bearer '' @ tok"
    by (simp add: is_http_whitespace_def)
  moreover have "dropWhile is_http_whitespace (rev (''Bearer '' @ tok)) = rev (''Bearer '' @ tok)"
    using assms by (cases tok rule: rev_cases) simp_all
  ultimately show ?thesis
    by (simp only: normalize_value_def rev_rev_ident)
qed

lemma managed_headers_fixed:
  assumes "managed_headers req auth = Inr hs"
  shows "Headers_get hs ''authorization'' = Some (normalize_value (''Bearer '' @ access auth)) \<and>
         is_header_value (normalize_value (''Bearer '' @ access auth)) \<and>
         Headers_get hs ''anthropic-beta'' = Some ANTHROPIC_BETA \<and>
         Headers_get hs ''x-api-key'' = None"
  using assms
  by (auto simp: managed_headers_def Headers_prototype_set_def Headers_get_def Headers_set_def
      Headers_delete_def Let_def AList.delete_conv' AList.update_conv' lower_authorization
      lower_anthropic_beta lower_x_api_key beta_value split: if_splits)

lemma calls_forward_managed:
  assumes "Proxy_call u opts \<in> set (snd (forward_managed W req auth trace))"
    and "Proxy_call u opts \<notin> set trace"
  shows "managed_headers req auth = Inr (init_headers opts)"
  using assms
  by (auto simp: forward_managed_def Let_def snd_relay split: sum.splits)

lemma managed_call:
  assumes "Proxy_call u opts \<in> set (snd (snd (claude_code_proxy P W req fs)))"
  shows "\<exists>auth tok. getStoredTokens P fs = Inr (Some auth) \<and>
           (if access auth = [] \<or> expires auth < now_check W
            then \<exists>resp j. token_endpoint W (refresh_body auth) = Inr resp \<and> ok resp \<and>
                   json resp = Some j \<and> tok = access_token j
            else tok = access auth) \<and>
           managed_headers req (auth\<lparr>access := tok\<rparr>) = Inr (init_headers opts)"
proof (cases "getStoredTokens P fs")
  case (Inl e)
  with assms show ?thesis by (simp add: claude_code_proxy_def)
next
  case (Inr stored)
  show ?thesis
  proof (cases stored)
    case None
    with assms Inr show ?thesis by (simp add: claude_code_proxy_def)
  next
    case (Some auth)
    show ?thesis
    proof (cases "access auth = [] \<or> expires auth < now_check W")
      case False
      with assms Inr Some
      have "Proxy_call u opts \<in> set (snd (forward_managed W req auth []))"
        by (auto simp: claude_code_proxy_def split: prod.splits)
      then have "managed_headers req auth = Inr (init_headers opts)"
        by (rule calls_forward_managed) simp
      with Inr Some False show ?thesis by auto
    next
      case True
      show ?thesis
      proof (cases "token_endpoint W (refresh_body auth)")
        case (Inl e)
        with assms Inr Some True show ?thesis
          by (auto simp: claude_code_proxy_def Let_def)
      next
        case resp: (Inr resp)
        show ?thesis
        proof (cases "ok resp")
          case False
          with assms Inr Some True resp show ?thesis
            by (auto simp: claude_code_proxy_def Let_def)
        next
          case ok: True
          show ?thesis
          proof (cases "json resp")
            case None
            with assms Inr Some True resp ok show ?thesis
              by (auto simp: claude_code_proxy_def Let_def)
          next
            case j: (Some j)
            let ?auth' = "auth\<lparr>access := access_token j\<rparr>"
            from assms Inr Some True resp ok j
            have "Proxy_call u opts \<in>
                    set (snd (forward_managed W req ?auth' [Token_call (refresh_body auth)]))"
              by (auto simp: claude_code_proxy_def Let_def split: prod.splits)
            then have "managed_headers req ?auth' = Inr (init_headers opts)"
              by (rule calls_forward_managed) simp
            with Inr Some True resp ok j show ?thesis by auto
          qed
        qed
      qed
    qed
  qed
qed

text \<open>
  C8, as the platform's \<open>Headers.set\<close> stores the value. Every call that the handler
  forwards to the managed upstream carries an \<open>authorization\<close> header whose value is
  \<open>Bearer\<close>, a space and the access token (the refreshed one when a refresh was due,
  the stored one otherwise) with the trailing HTTP whitespace removed, and that value
  holds no NUL, line feed or carriage return; it is exactly \<open>Bearer\<close>, a space and the
  token when the token is not empty and does not end in whitespace. The call carries the
  fixed \<open>anthropic-beta\<close> header and no \<open>x-api-key\<close>, whatever the inbound headers
  were.
\<close>

theorem managed_authorization:
  assumes "Proxy_call u opts \<in> set (snd (snd (claude_code_proxy P W req fs)))"
  shows "\<exists>auth tok. getStoredTokens P fs = Inr (Some auth) \<and>
           (if access auth = [] \<or> expires auth < now_check W
            then \<exists>resp j. token_endpoint W (refresh_body auth) = Inr resp \<and> ok resp \<and>
                   json resp = Some j \<and> tok = access_token j
            else tok = access auth) \<and>
           Headers_get (init_headers opts) ''authorization'' =
             Some (normalize_value (''Bearer '' @ tok)) \<and>
           is_header_value (normalize_value (''Bearer '' @ tok)) \<and>
           (tok \<noteq> [] \<and> \<not> is_http_whitespace (last tok) \<longrightarrow>
              Headers_get (init_headers opts) ''authorization'' = Some (''Bearer '' @ tok)) \<and>
           Headers_get (init_headers opts) ''anthropic-beta'' = Some ANTHROPIC_BETA \<and>
           Headers_get (init_headers opts) ''x-api-key'' = None"
proof -
  from managed_call [OF assms] obtain auth tok where stored:
    "getStoredTokens P fs = Inr (Some auth)"
    "if access auth = [] \<or> expires auth < now_check W
     then \<exists>resp j. token_endpoint W (refresh_body auth) = Inr resp \<and> ok resp \<and>
            json resp = Some j \<and> tok = access_token j
     else tok = access auth"
    and built: "managed_headers req (auth\<lparr>access := tok\<rparr>) = Inr (init_headers opts)"
    by blast
  have "access (auth\<lparr>access := tok\<rparr>) = tok"
    by simp
  with managed_headers_fixed [OF built]
  have fixed:
    "Headers_get (init_headers opts) ''authorization'' = Some (normalize_value (''Bearer '' @ tok))"
    "is_header_value (normalize_value (''Bearer '' @ tok))"
    "Headers_get (init_headers opts) ''anthropic-beta'' = Some ANTHROPIC_BETA"
    "Headers_get (init_headers opts) ''x-api-key'' = None"
    by simp_all
  moreover have "tok \<noteq> [] \<and> \<not> is_http_whitespace (last tok) \<longrightarrow>
                   Headers_get (init_headers opts) ''authorization'' = Some (''Bearer '' @ tok)"
    using fixed(1) normalize_bearer by simp
  ultimately show ?thesis
    using stored by blast
qed

lemma example_call:
  "\<exists>hs. managed_headers example_request (example_tokens\<lparr>access := ''at-2''\<rparr>) = Inr hs \<and>
      snd (snd (claude_code_proxy example_platform example_world example_request example_files)) =
        [Token_call (refresh_body example_tokens),
         Proxy_call ''https://api.anthropic.com/v1/messages?beta=true''
           \<lparr>init_method = ''POST'', init_headers = hs, init_body = ''{}''\<rparr>]"
proof -
  have "normalize_value ''Bearer at-2'' = ''Bearer at-2'' \<and> is_header_value ''Bearer at-2''"
    by code_simp
  then obtain hs where hs:
    "managed_headers example_request (example_tokens\<lparr>access := ''at-2''\<rparr>) = Inr hs"
    by (simp add: managed_headers_def Headers_prototype_set_def beta_value example_tokens_def)
  let ?j = "\<lparr>refresh_token = ''rt-2'', access_token = ''at-2'', expires_in = 3600\<rparr>"
  have "snd (snd (claude_code_proxy example_platform example_world example_request
                    example_files)) =
          snd (forward_managed example_world example_request
                 (example_tokens\<lparr>access := access_token ?j\<rparr>)
                 [Token_call (refresh_body example_tokens)])"
    by (rule calls_refreshed [OF example_load, where resp = "\<lparr>ok = True, json = Some ?j\<rparr>"])
       (simp_all add: example_tokens_def example_world_def)
  with hs have "snd (snd (claude_code_proxy example_platform example_world example_request
                         example_files)) =
          [Token_call (refresh_body example_tokens),
           Proxy_call ''https://api.anthropic.com/v1/messages?beta=true''
             \<lparr>init_method = ''POST'', init_headers = hs, init_body = ''{}''\<rparr>]"
    by (simp add: snd_forward_managed_built example_request_def)
  with hs show ?thesis by blast
qed

theorem managed_authorization_witness:
  "\<exists>hs. managed_headers example_request (example_tokens\<lparr>access := ''at-2''\<rparr>) = Inr hs \<and>
      Headers_get hs ''authorization'' = Some ''Bearer at-2'' \<and>
      Headers_get hs ''anthropic-beta'' = Some ANTHROPIC_BETA \<and>
      Headers_get hs ''x-api-key'' = None"
proof -
  from example_call obtain hs where
    hs: "managed_headers example_request (example_tokens\<lparr>access := ''at-2''\<rparr>) = Inr hs"
    and "Proxy_call ''https://api.anthropic.com/v1/messages?beta=true''
           \<lparr>init_method = ''POST'', init_headers = hs, init_body = ''{}''\<rparr> \<in>
         set (snd (snd (claude_code_proxy example_platform example_world example_request
                          example_files)))"
    by auto
  from managed_authorization [OF this(2)] hs show ?thesis
    by (auto simp: example_load example_tokens_def example_world_def is_http_whitespace_def)
qed

text \<open>
  C8 as stated asks for \<open>Bearer\<close>, a space and the access token whatever the token.
  With the stored token \<open>at-1\<close> followed by a space (and an expiry ahead of the clock)
  the handler forwards a call whose \<open>authorization\<close> header is \<open>Bearer at-1\<close>, without
  the space.
\<close>

theorem managed_authorization_counterexample:
  "getStoredTokens example_platform spaced_files = Inr (Some spaced_tokens) \<and>
   access spaced_tokens = ''at-1 '' \<and>
   now_check (example_world\<lparr>now_check := 500\<rparr>) \<le> expires spaced_tokens \<and>
   (\<exists>u opts.
      snd (snd (claude_code_proxy example_platform (example_world\<lparr>now_check := 500\<rparr>)
                  example_request spaced_files)) = [Proxy_call u opts] \<and>
      Headers_get (init_headers opts) ''authorization'' = Some ''Bearer at-1'' \<and>
      Headers_get (init_headers opts) ''authorization'' \<noteq>
        Some (''Bearer '' @ access spaced_tokens))"
proof -
  have norm: "normalize_value ''Bearer at-1 '' = ''Bearer at-1'' \<and> is_header_value ''Bearer at-1''"
    by code_simp
  then obtain hs where hs: "managed_headers example_request spaced_tokens = Inr hs"
    by (simp add: managed_headers_def Headers_prototype_set_def beta_value spaced_tokens_def
        example_tokens_def)
  from managed_headers_fixed [OF hs] norm
  have auth: "Headers_get hs ''authorization'' = Some ''Bearer at-1''"
    by (simp add: spaced_tokens_def example_tokens_def)
  have "snd (snd (claude_code_proxy example_platform (example_world\<lparr>now_check := 500\<rparr>)
                    example_request spaced_files)) =
          snd (forward_managed (example_world\<lparr>now_check := 500\<rparr>) example_request
                 spaced_tokens [])"
    by (rule calls_stored [OF spaced_load]) (simp_all add: spaced_tokens_def example_tokens_def)
  with hs have "snd (snd (claude_code_proxy example_platform (example_world\<lparr>now_check := 500\<rparr>)
                    example_request spaced_files)) =
          [Proxy_call ''https://api.anthropic.com/v1/messages?beta=true''
             \<lparr>init_method = ''POST'', init_headers = hs, init_body = ''{}''\<rparr>]"
    by (simp add: snd_forward_managed_built example_request_def)
  with auth show ?thesis
    by (simp add: spaced_load spaced_tokens_def example_tokens_def)
qed


section \<open>The timeout\<close>

lemma fetchWithTimeout_settles: "\<exists>r. fetchWithTimeout W u opts timeout = Some r"
  by (auto simp: fetchWithTimeout_def new_AbortController_def abort_def aborted_def
      await_proxy_def after_timer_def signal_aborted_def settle_def
      split: upstream.splits sum.splits)

lemma fetch_timeout:
  assumes "timeout_elapses timeout (upstream_of W u opts)"
  shows "fetchWithTimeout W u opts timeout =
           Some (Inr \<lparr>status = 504,
                      res_headers = [(''content-type'', ''text/plain;charset=UTF-8'')],
                      res_body = ''Request timeout''\<rparr>, True)"
  using assms
  by (auto simp: timeout_elapses_def fetchWithTimeout_def new_AbortController_def abort_def
      aborted_def await_proxy_def after_timer_def signal_aborted_def settle_def
      settles_first_def split: upstream.splits)

lemma fetch_failure:
  assumes "upstream_of W u opts = Fails t err" and "t < timeout"
  shows "fetchWithTimeout W u opts timeout = Some (Inl err, False)"
  using assms
  by (simp add: fetchWithTimeout_def new_AbortController_def aborted_def await_proxy_def
      signal_aborted_def settle_def settles_first_def)

text \<open>
  C5. When the timeout elapses before the upstream responds, the platform cancels the
  call that \<open>fetchWithTimeout\<close> made (its signal was aborted by the timer), and
  \<open>fetchWithTimeout\<close> returns a response with status 504 and body \<open>Request timeout\<close>;
  a failure of the upstream before the timeout is thrown again, and the call was not
  cancelled. The handlers call with 60000 ms: they relay that 504 response when the
  upstream takes longer than 60 seconds, and throw an earlier failure.
\<close>

theorem forwarding_timeout:
  "(timeout_elapses timeout (upstream_of W u opts) \<longrightarrow>
      fetchWithTimeout W u opts timeout =
        Some (Inr \<lparr>status = 504,
                   res_headers = [(''content-type'', ''text/plain;charset=UTF-8'')],
                   res_body = ''Request timeout''\<rparr>, True)) \<and>
   (\<forall>t err. upstream_of W u opts = Fails t err \<and> t < timeout \<longrightarrow>
      fetchWithTimeout W u opts timeout = Some (Inl err, False)) \<and>
   (timeout_elapses 60000 (upstream_of W u opts) \<longrightarrow>
      relay W u opts trace =
        (Inr (Response_reply
                \<lparr>status = 504,
                 res_headers = [(''content-type'', ''text/plain;charset=UTF-8'')],
                 res_body = ''Request timeout''\<rparr>),
         trace @ [Proxy_call u opts])) \<and>
   (\<forall>t err. upstream_of W u opts = Fails t err \<and> t < 60000 \<longrightarrow>
      relay W u opts trace = (Inl err, trace @ [Proxy_call u opts]))"
proof (intro conjI impI allI)
  assume "timeout_elapses timeout (upstream_of W u opts)"
  then show "fetchWithTimeout W u opts timeout =
               Some (Inr \<lparr>status = 504,
                          res_headers = [(''content-type'', ''text/plain;charset=UTF-8'')],
                          res_body = ''Request timeout''\<rparr>, True)"
    by (rule fetch_timeout)
next
  fix t err
  assume "upstream_of W u opts = Fails t err \<and> t < timeout"
  then show "fetchWithTimeout W u opts timeout = Some (Inl err, False)"
    by (simp add: fetch_failure)
next
  assume "timeout_elapses 60000 (upstream_of W u opts)"
  then show "relay W u opts trace =
               (Inr (Response_reply
                       \<lparr>status = 504,
                        res_headers = [(''content-type'', ''text/plain;charset=UTF-8'')],
                        res_body = ''Request timeout''\<rparr>),
                trace @ [Proxy_call u opts])"
    by (simp add: relay_def fetch_timeout)
next
  fix t err
  assume "upstream_of W u opts = Fails t err \<and> t < 60000"
  then show "relay W u opts trace = (Inl err, trace @ [Proxy_call u opts])"
    by (simp add: relay_def fetch_failure)
qed

theorem forwarding_timeout_witness:
  "fetchWithTimeout hanging_world ''https://api.groq.com/v1/chat''
     \<lparr>init_method = ''POST'', init_headers = [], init_body = ''{}''\<rparr> 60000 =
     Some (Inr \<lparr>status = 504,
                res_headers = [(''content-type'', ''text/plain;charset=UTF-8'')],
                res_body = ''Request timeout''\<rparr>, True) \<and>
   relay hanging_world ''https://api.groq.com/v1/chat''
     \<lparr>init_method = ''POST'', init_headers = [], init_body = ''{}''\<rparr> [] =
     (Inr (Response_reply
             \<lparr>status = 504,
              res_headers = [(''content-type'', ''text/plain;charset=UTF-8'')],
              res_body = ''Request timeout''\<rparr>),
      [Proxy_call ''https://api.groq.com/v1/chat''
         \<lparr>init_method = ''POST'', init_headers = [], init_body = ''{}''\<rparr>]) \<and>
   relay failing_world ''https://api.groq.com/v1/chat''
     \<lparr>init_method = ''POST'', init_headers = [], init_body = ''{}''\<rparr> [] =
     (Inl (FetchError ''ECONNRESET''),
      [Proxy_call ''https://api.groq.com/v1/chat''
         \<lparr>init_method = ''POST'', init_headers = [], init_body = ''{}''\<rparr>])"
proof -
  let ?u = "''https://api.groq.com/v1/chat''"
  let ?opts = "\<lparr>init_method = ''POST'', init_headers = [], init_body = ''{}''\<rparr>"
  have hangs: "timeout_elapses 60000 (upstream_of hanging_world ?u ?opts)"
    by (simp add: hanging_world_def timeout_elapses_def)
  have fails: "upstream_of failing_world ?u ?opts = Fails 40 (FetchError ''ECONNRESET'') \<and>
               (40::nat) < 60000"
    by (simp add: failing_world_def)
  show ?thesis
    using forwarding_timeout [where W = hanging_world and u = ?u and opts = ?opts
        and trace = "[]" and timeout = 60000]
      forwarding_timeout [where W = failing_world and u = ?u and opts = ?opts
        and trace = "[]" and timeout = 60000]
      hangs fails
    by (metis append_Nil)
qed


section \<open>The target URL\<close>

lemma replace_prefix: "prefix pat s \<Longrightarrow> replace s pat rep = rep @ drop (length pat) s"
  by (cases s) auto

lemma replace_absent: "\<not> sublist pat s \<Longrightarrow> replace s pat rep = s"
  by (induction s) (auto simp: sublist_Cons_right)

lemma prefix_within:
  assumes "prefix pat (ys @ zs)" and "length pat \<le> length ys"
  shows "prefix pat ys"
  using assms by (auto simp: prefix_append)

lemma replace_first:
  assumes "pat \<noteq> []" and "\<not> sublist pat (a @ butlast pat)"
  shows "replace (a @ pat @ b) pat rep = a @ rep @ b"
  using assms(2)
proof (induction a)
  case Nil
  then show ?case by (simp add: replace_prefix)
next
  case (Cons x a)
  have split: "(x # a) @ pat @ b = ((x # a) @ butlast pat) @ ([last pat] @ b)"
    using assms(1) by simp
  have "\<not> prefix pat ((x # a) @ pat @ b)"
  proof
    assume "prefix pat ((x # a) @ pat @ b)"
    then have "prefix pat (((x # a) @ butlast pat) @ ([last pat] @ b))"
      by (simp only: split)
    moreover have "length pat \<le> length ((x # a) @ butlast pat)"
      by simp
    ultimately have "prefix pat ((x # a) @ butlast pat)"
      by (rule prefix_within)
    with Cons.prems show False by auto
  qed
  moreover from Cons.prems have "\<not> sublist pat (a @ butlast pat)"
    by (simp add: sublist_Cons_right)
  ultimately show ?case using Cons.IH by simp
qed

lemma routing_call:
  assumes "find_proxy table (req_url req) = Some p"
  shows "\<exists>r opts. routing_middleware table W req =
           Some (r, [Proxy_call (target_url p (req_url req)) opts])"
  using assms
  by (simp add: routing_middleware_def relay_def split: option.splits sum.splits prod.splits)

text \<open>
  C4, for the entry that the table resolves. For a request that \<open>proxies.find\<close>
  resolves to an entry (the first entry whose \<open>/{pathSegment}/\<close> is a prefix of the
  path or whose alternate host name is the request's) and whose path starts with
  \<open>/{pathSegment}/\<close> of that entry, the middleware calls the entry's target followed
  by the path with that leading prefix replaced by \<open>/\<close> and by the query string,
  unchanged. In the application's table a request with the path \<open>/groq/v1/chat\<close>
  and a host name other than \<open>gooai.chatkit.app\<close> resolves to the entry \<open>groq\<close>, and
  its target is \<open>https://api.groq.com/v1/chat\<close> followed by the query string.
\<close>

theorem routed_target:
  "(\<forall>p. find_proxy table (req_url req) = Some p \<and>
        startsWith (pathname (req_url req)) (''/'' @ pathSegment p @ ''/'') \<longrightarrow>
        (\<exists>r opts. routing_middleware table W req =
           Some (r, [Proxy_call
                       (target p @ ''/'' @
                        drop (length (''/'' @ pathSegment p @ ''/'')) (pathname (req_url req)) @
                        search (req_url req)) opts]))) \<and>
   (hostname (req_url req) \<noteq> ''gooai.chatkit.app'' \<and>
    pathname (req_url req) = ''/groq/v1/chat'' \<longrightarrow>
      find_proxy proxies (req_url req) =
        Some \<lparr>pathSegment = ''groq'', target = ''https://api.groq.com'', orHostname = None\<rparr> \<and>
      (\<exists>r opts. routing_middleware proxies W req =
         Some (r, [Proxy_call (''https://api.groq.com/v1/chat'' @ search (req_url req)) opts])))"
proof (intro conjI allI impI)
  fix p
  assume p: "find_proxy table (req_url req) = Some p \<and>
             startsWith (pathname (req_url req)) (''/'' @ pathSegment p @ ''/'')"
  then have
    "target_url p (req_url req) =
       target p @ ''/'' @ drop (length (''/'' @ pathSegment p @ ''/'')) (pathname (req_url req)) @
       search (req_url req)"
    by (simp add: target_url_def startsWith_def replace_prefix)
  with routing_call [of table req p W] p
  show "\<exists>r opts. routing_middleware table W req =
          Some (r, [Proxy_call
                      (target p @ ''/'' @
                       drop (length (''/'' @ pathSegment p @ ''/'')) (pathname (req_url req)) @
                       search (req_url req)) opts])"
    by auto
next
  let ?groq = "\<lparr>pathSegment = ''groq'', target = ''https://api.groq.com'', orHostname = None\<rparr>"
  assume groq: "hostname (req_url req) \<noteq> ''gooai.chatkit.app'' \<and>
                pathname (req_url req) = ''/groq/v1/chat''"
  then show found: "find_proxy proxies (req_url req) = Some ?groq"
    by (simp add: find_proxy_def proxies_def matches_def startsWith_def)
  from groq have "target_url ?groq (req_url req) =
                    ''https://api.groq.com/v1/chat'' @ search (req_url req)"
    by (simp add: target_url_def)
  with routing_call [OF found, of W]
  show "\<exists>r opts. routing_middleware proxies W req =
          Some (r, [Proxy_call (''https://api.groq.com/v1/chat'' @ search (req_url req)) opts])"
    by simp
qed

theorem routed_target_witness:
  "find_proxy proxies (req_url groq_request) =
     Some \<lparr>pathSegment = ''groq'', target = ''https://api.groq.com'', orHostname = None\<rparr> \<and>
   (\<exists>r opts. routing_middleware proxies example_world groq_request =
      Some (r, [Proxy_call ''https://api.groq.com/v1/chat?stream=true'' opts]))"
proof -
  have "hostname (req_url groq_request) \<noteq> ''gooai.chatkit.app'' \<and>
        pathname (req_url groq_request) = ''/groq/v1/chat''"
    by (simp add: groq_request_def)
  with routed_target [of proxies groq_request example_world] show ?thesis
    by (simp add: groq_request_def)
qed

text \<open>
  C4 as stated speaks of every request whose path starts with \<open>/{pathSegment}/\<close> of an
  entry. The first matching entry decides, and it may be another one. A request for
  the host \<open>gooai.chatkit.app\<close> with the path \<open>/groq/v1/chat\<close> is resolved to the entry
  \<open>generativelanguage\<close> by its host name, and the target keeps the path; a request
  with the path \<open>/openrouter/api/v1/chat\<close> starts with \<open>/openrouter/\<close> too, is resolved
  to the earlier entry \<open>openrouter/api\<close>, and its target is not the entry
  \<open>openrouter\<close>'s target followed by \<open>/api/v1/chat\<close>.
\<close>

theorem routed_target_counterexample:
  "\<lparr>pathSegment = ''groq'', target = ''https://api.groq.com'', orHostname = None\<rparr> \<in> set proxies \<and>
   startsWith (pathname (req_url groq_on_gooai_request)) (''/'' @ ''groq'' @ ''/'') \<and>
   (\<exists>r opts. routing_middleware proxies example_world groq_on_gooai_request =
      Some (r, [Proxy_call ''https://generativelanguage.googleapis.com/groq/v1/chat'' opts])) \<and>
   ''https://generativelanguage.googleapis.com/groq/v1/chat'' \<noteq>
     ''https://api.groq.com'' @ ''/v1/chat'' \<and>
   \<lparr>pathSegment = ''openrouter'', target = ''https://openrouter.ai/api'', orHostname = None\<rparr>
     \<in> set proxies \<and>
   startsWith (pathname (req_url openrouter_request)) (''/'' @ ''openrouter'' @ ''/'') \<and>
   (\<exists>r opts. routing_middleware proxies example_world openrouter_request =
      Some (r, [Proxy_call ''https://openrouter.ai/api/v1/chat'' opts])) \<and>
   ''https://openrouter.ai/api/v1/chat'' \<noteq> ''https://openrouter.ai/api'' @ ''/api/v1/chat''"
proof -
  let ?gl = "\<lparr>pathSegment = ''generativelanguage'',
               target = ''https://generativelanguage.googleapis.com'',
               orHostname = Some ''gooai.chatkit.app''\<rparr>"
  let ?ora = "\<lparr>pathSegment = ''openrouter/api'', target = ''https://openrouter.ai/api'',
                orHostname = None\<rparr>"
  have by_host: "find_proxy proxies (req_url groq_on_gooai_request) = Some ?gl"
    by (simp add: find_proxy_def proxies_def matches_def startsWith_def groq_on_gooai_request_def)
  have kept: "target_url ?gl (req_url groq_on_gooai_request) =
                ''https://generativelanguage.googleapis.com/groq/v1/chat''"
    by (simp add: target_url_def groq_on_gooai_request_def)
  have earlier: "find_proxy proxies (req_url openrouter_request) = Some ?ora"
    by (simp add: find_proxy_def proxies_def matches_def startsWith_def openrouter_request_def)
  have cut: "target_url ?ora (req_url openrouter_request) = ''https://openrouter.ai/api/v1/chat''"
    by (simp add: target_url_def openrouter_request_def)
  have "\<exists>r opts. routing_middleware proxies example_world groq_on_gooai_request =
          Some (r, [Proxy_call ''https://generativelanguage.googleapis.com/groq/v1/chat'' opts])"
    using routing_call [OF by_host, of example_world] kept by simp
  moreover have "\<exists>r opts. routing_middleware proxies example_world openrouter_request =
          Some (r, [Proxy_call ''https://openrouter.ai/api/v1/chat'' opts])"
    using routing_call [OF earlier, of example_world] cut by simp
  ultimately show ?thesis
    by (simp add: proxies_def startsWith_def groq_on_gooai_request_def openrouter_request_def)
qed

text \<open>
  C10. For a request that the routing table resolves to an entry whose
  \<open>/{pathSegment}/\<close> is not a prefix of the path, the entry was matched by its
  alternate host name, and the path is rewritten by replacing the first occurrence of
  \<open>/{pathSegment}/\<close>, wherever it is, by \<open>/\<close>; a path without an occurrence is
  left as it is.
\<close>

theorem host_matched_rewrite:
  assumes "find_proxy table (req_url req) = Some p"
    and "\<not> startsWith (pathname (req_url req)) (''/'' @ pathSegment p @ ''/'')"
  shows "orHostname p = Some (hostname (req_url req)) \<and>
         (\<exists>r opts. routing_middleware table W req =
            Some (r, [Proxy_call (target_url p (req_url req)) opts])) \<and>
         (\<forall>a b. pathname (req_url req) = a @ (''/'' @ pathSegment p @ ''/'') @ b \<and>
                \<not> sublist (''/'' @ pathSegment p @ ''/'')
                    (a @ butlast (''/'' @ pathSegment p @ ''/'')) \<longrightarrow>
                target_url p (req_url req) = target p @ (a @ ''/'' @ b) @ search (req_url req)) \<and>
         (\<not> sublist (''/'' @ pathSegment p @ ''/'') (pathname (req_url req)) \<longrightarrow>
            target_url p (req_url req) = target p @ pathname (req_url req) @ search (req_url req))"
proof (intro conjI allI impI)
  from assms(1) have "matches (req_url req) p"
    by (auto simp: find_proxy_def find_Some_iff)
  with assms(2) show "orHostname p = Some (hostname (req_url req))"
    by (auto simp: matches_def split: option.splits)
next
  show "\<exists>r opts. routing_middleware table W req =
          Some (r, [Proxy_call (target_url p (req_url req)) opts])"
    by (rule routing_call [OF assms(1)])
next
  fix a b
  assume "pathname (req_url req) = a @ (''/'' @ pathSegment p @ ''/'') @ b \<and>
          \<not> sublist (''/'' @ pathSegment p @ ''/'') (a @ butlast (''/'' @ pathSegment p @ ''/''))"
  then show "target_url p (req_url req) = target p @ (a @ ''/'' @ b) @ search (req_url req)"
    using replace_first [of "''/'' @ pathSegment p @ ''/''" a b "''/''"]
    by (simp add: target_url_def)
next
  assume "\<not> sublist (''/'' @ pathSegment p @ ''/'') (pathname (req_url req))"
  then show "target_url p (req_url req) =
               target p @ pathname (req_url req) @ search (req_url req)"
    by (simp add: target_url_def replace_absent)
qed

theorem host_matched_rewrite_witness:
  "(\<exists>r opts. routing_middleware proxies example_world gooai_request =
      Some (r, [Proxy_call ''https://generativelanguage.googleapis.com/v1beta/models?key=k''
                  opts])) \<and>
   orHostname
     \<lparr>pathSegment = ''generativelanguage'',
      target = ''https://generativelanguage.googleapis.com'',
      orHostname = Some ''gooai.chatkit.app''\<rparr> = Some (hostname (req_url gooai_request))"
proof -
  let ?p = "\<lparr>pathSegment = ''generativelanguage'',
              target = ''https://generativelanguage.googleapis.com'',
              orHostname = Some ''gooai.chatkit.app''\<rparr>"
  have found: "find_proxy proxies (req_url gooai_request) = Some ?p"
    by (simp add: find_proxy_def proxies_def matches_def startsWith_def gooai_request_def)
  have inner: "\<not> startsWith (pathname (req_url gooai_request)) (''/'' @ pathSegment ?p @ ''/'')"
    by (simp add: startsWith_def gooai_request_def)
  have first: "pathname (req_url gooai_request) =
                 ''/v1beta'' @ (''/'' @ pathSegment ?p @ ''/'') @ ''models'' \<and>
               \<not> sublist (''/'' @ pathSegment ?p @ ''/'')
                   (''/v1beta'' @ butlast (''/'' @ pathSegment ?p @ ''/''))"
    by (simp add: gooai_request_def sublist_Cons_right)
  from host_matched_rewrite [OF found inner, of example_world] first
  have "orHostname ?p = Some (hostname (req_url gooai_request))"
    and "\<exists>r opts. routing_middleware proxies example_world gooai_request =
           Some (r, [Proxy_call (target_url ?p (req_url gooai_request)) opts])"
    and "target_url ?p (req_url gooai_request) =
           target ?p @ (''/v1beta'' @ ''/'' @ ''models'') @ search (req_url gooai_request)"
    by blast+
  then show ?thesis
    by (simp add: gooai_request_def)
qed

end
